theory Spec2Isabelle
  imports Main
begin

text \<open>
  A model of \<^verbatim>\<open>custom_vector.h\<close>: the class templates \<^verbatim>\<open>RawMemory<T>\<close> and \<^verbatim>\<open>Vector<T>\<close>
  and the comparison operators.

  \<^item> A \<^verbatim>\<open>RawMemory\<close> owns its block exclusively (it cannot be copied), so the block is
    modelled as part of the pointer that owns it, cell by cell.
  \<^item> What the element type and the allocator do is not in the header. Their calls are
    recorded in a trace, and the environment decides which call throws.
  \<^item> Iterators are offsets from \<^verbatim>\<open>begin()\<close>; arguments of type \<^verbatim>\<open>T\<close> are values.
  \<^item> \<^verbatim>\<open>size_t\<close> values are natural numbers: no vector that exists is large enough for
    \<^verbatim>\<open>size * 2\<close>, or for the byte count of a block of that many elements, to wrap around.
    A capacity or size that the caller supplies (\<^verbatim>\<open>Reserve\<close>, \<^verbatim>\<open>Resize\<close>) is not the size
    of anything that exists, so the theorems about these calls bound it: the byte count
    of the block they ask for has to fit into the 64 bits of a \<^verbatim>\<open>size_t\<close>.
  \<^item> \<^verbatim>\<open>int\<close> has 32 bits.
\<close>

section \<open>Storage, element objects and the environment\<close>

text \<open>
  A storage cell of a block obtained from \<^verbatim>\<open>operator new\<close> is either raw memory, a
  constructed object holding a value, or a constructed object that has been moved from
  (still alive, so it still has to be destroyed, but its value is unspecified).
\<close>

datatype 'a slot = Raw | is_Obj: Obj (value_of: 'a) | MovedFrom

text \<open>
  The pointer \<^verbatim>\<open>T* buffer\<close> together with the block it points to. A block is owned by
  exactly one \<^verbatim>\<open>RawMemory\<close> (the class is move-only), so the block travels with the
  pointer. \<open>Dangling\<close> is a pointer whose block has already been released.
\<close>

datatype 'a ptr = Null | Block "'a slot list" | Dangling

fun cells :: "'a ptr \<Rightarrow> 'a slot list" where
  "cells (Block b) = b"
| "cells Null = []"
| "cells Dangling = []"

fun with_cells :: "'a ptr \<Rightarrow> 'a slot list \<Rightarrow> 'a ptr" where
  "with_cells (Block old) b = Block b"
| "with_cells Null b = Null"
| "with_cells Dangling b = Dangling"

fun constructed :: "'a slot \<Rightarrow> bool" where
  "constructed Raw = False"
| "constructed (Obj x) = True"
| "constructed MovedFrom = True"

text \<open>
  How a call can end other than by returning: a C++ exception leaves it, an
  \<^verbatim>\<open>assert\<close> aborts the program, or the behaviour is undefined.
\<close>

datatype error = Thrown | AssertFailed | Undefined

text \<open>
  What the element type and the allocator are asked to do, in the order it happens.
  \<open>EvDeallocate k\<close> is the release of a block in which \<open>k\<close> objects were still
  constructed; \<open>EvLeak\<close> is the loss of the last pointer to a block.
\<close>

datatype event =
    EvAllocate nat
  | EvDeallocate nat
  | EvLeak
  | EvConstruct
  | EvDefaultConstruct
  | EvCopyConstruct
  | EvMoveConstruct
  | EvCopyAssign
  | EvMoveAssign
  | EvDestroy

text \<open>
  The environment of a call: the trace of events so far, and which of the coming
  operations that are allowed to throw does throw (\<open>Some k\<close>: the first \<open>k\<close> succeed and
  the next one throws; \<open>None\<close>: none throws).
\<close>

record world =
  fault :: "nat option"
  trace :: "event list"

definition record_event :: "event \<Rightarrow> world \<Rightarrow> world" where
  "record_event e w = w\<lparr>trace := trace w @ [e]\<rparr>"

definition fallible :: "event \<Rightarrow> world \<Rightarrow> bool \<times> world" where
  "fallible e w =
     (case fault w of
        None \<Rightarrow> (True, record_event e w)
      | Some 0 \<Rightarrow> (False, w\<lparr>fault := None\<rparr>)
      | Some (Suc k) \<Rightarrow> (True, record_event e (w\<lparr>fault := Some k\<rparr>)))"

text \<open>
  What the container asks about its element type \<^verbatim>\<open>T\<close> at compile time, the value
  of \<^verbatim>\<open>T()\<close>, and \<^verbatim>\<open>sizeof(T)\<close> in bytes.
\<close>

record 'a elem_type =
  is_nothrow_move_constructible :: bool
  is_copy_constructible :: bool
  default_value :: 'a
  size_of :: nat

section \<open>RawMemory and Vector\<close>

record 'a RawMemory =
  buffer :: "'a ptr"
  capacity :: nat

record 'a Vector =
  data :: "'a RawMemory"
  size_v :: nat

definition Size :: "'a Vector \<Rightarrow> nat" where
  "Size v = size_v v"

definition Capacity :: "'a Vector \<Rightarrow> nat" where
  "Capacity v = capacity (data v)"

text \<open>
  The vector that holds the values \<open>xs\<close> in a block of \<open>c\<close> cells: the first
  \<open>length xs\<close> cells are constructed, the rest is raw; no block at all when \<open>c = 0\<close>.
\<close>

definition Vec :: "'a list \<Rightarrow> nat \<Rightarrow> 'a Vector" where
  "Vec xs c =
     \<lparr>data = \<lparr>buffer = (if c = 0 then Null
                         else Block (map Obj xs @ replicate (c - length xs) Raw)),
              capacity = c\<rparr>,
      size_v = length xs\<rparr>"

text \<open>The class invariant of \<^verbatim>\<open>Vector\<close>.\<close>

definition well_formed :: "'a Vector \<Rightarrow> bool" where
  "well_formed v \<longleftrightarrow>
     size_v v \<le> capacity (data v) \<and>
     (case buffer (data v) of
        Null \<Rightarrow> capacity (data v) = 0
      | Block b \<Rightarrow> b \<noteq> [] \<and> length b = capacity (data v) \<and>
                   list_all is_Obj (take (size_v v) b) \<and>
                   list_all (\<lambda>s. s = Raw) (drop (size_v v) b)
      | Dangling \<Rightarrow> False)"

definition elems :: "'a Vector \<Rightarrow> 'a list" where
  "elems v = map value_of (take (size_v v) (cells (buffer (data v))))"

section \<open>Comparison operators\<close>

text \<open>The live range \<^verbatim>\<open>[begin(), end())\<close> as it is read by an algorithm.\<close>

definition live :: "'a Vector \<Rightarrow> error + 'a list" where
  "live v =
     (let b = take (size_v v) (cells (buffer (data v)))
      in if length b = size_v v \<and> list_all is_Obj b then Inr (map value_of b)
         else Inl Undefined)"

text \<open>\<^verbatim>\<open>std::equal\<close> on two random-access ranges: lengths first, then element by element.\<close>

fun equal_loop :: "'a list \<Rightarrow> 'a list \<Rightarrow> bool" where
  "equal_loop (x # xs) (y # ys) = (if x = y then equal_loop xs ys else False)"
| "equal_loop [] ys = True"
| "equal_loop (x # xs) [] = True"

definition std_equal :: "'a list \<Rightarrow> 'a list \<Rightarrow> bool" where
  "std_equal xs ys = (if length xs \<noteq> length ys then False else equal_loop xs ys)"

fun lexicographical_compare :: "'a::ord list \<Rightarrow> 'a list \<Rightarrow> bool" where
  "lexicographical_compare (x # xs) (y # ys) =
     (if x < y then True else if y < x then False else lexicographical_compare xs ys)"
| "lexicographical_compare [] ys = (ys \<noteq> [])"
| "lexicographical_compare (x # xs) [] = False"

datatype strong_ordering = SO_less | SO_equal | SO_greater

fun lexicographical_compare_three_way :: "'a::ord list \<Rightarrow> 'a list \<Rightarrow> strong_ordering" where
  "lexicographical_compare_three_way (x # xs) (y # ys) =
     (if x < y then SO_less else if y < x then SO_greater
      else lexicographical_compare_three_way xs ys)"
| "lexicographical_compare_three_way [] [] = SO_equal"
| "lexicographical_compare_three_way [] (y # ys) = SO_less"
| "lexicographical_compare_three_way (x # xs) [] = SO_greater"

definition on_ranges :: "('a list \<Rightarrow> 'a list \<Rightarrow> 'r) \<Rightarrow> 'a Vector \<Rightarrow> 'a Vector \<Rightarrow> error + 'r" where
  "on_ranges f lhs rhs =
     (case live lhs of
        Inl e \<Rightarrow> Inl e
      | Inr xs \<Rightarrow> (case live rhs of Inl e \<Rightarrow> Inl e | Inr ys \<Rightarrow> Inr (f xs ys)))"

definition operator_eq :: "'a Vector \<Rightarrow> 'a Vector \<Rightarrow> error + bool" where
  "operator_eq lhs rhs = on_ranges std_equal lhs rhs"

definition operator_ne :: "'a Vector \<Rightarrow> 'a Vector \<Rightarrow> error + bool" where
  "operator_ne lhs rhs = map_sum id Not (operator_eq lhs rhs)"

definition operator_lt :: "'a::ord Vector \<Rightarrow> 'a Vector \<Rightarrow> error + bool" where
  "operator_lt lhs rhs = on_ranges lexicographical_compare lhs rhs"

definition operator_le :: "'a::ord Vector \<Rightarrow> 'a Vector \<Rightarrow> error + bool" where
  "operator_le lhs rhs = map_sum id Not (operator_lt rhs lhs)"

definition operator_gt :: "'a::ord Vector \<Rightarrow> 'a Vector \<Rightarrow> error + bool" where
  "operator_gt lhs rhs = operator_le lhs rhs"

definition operator_ge :: "'a::ord Vector \<Rightarrow> 'a Vector \<Rightarrow> error + bool" where
  "operator_ge lhs rhs = map_sum id Not (operator_lt lhs rhs)"

definition operator_spaceship :: "'a::ord Vector \<Rightarrow> 'a Vector \<Rightarrow> error + strong_ordering" where
  "operator_spaceship lhs rhs = on_ranges lexicographical_compare_three_way lhs rhs"

section \<open>Standard-library algorithms on cells\<close>

text \<open>
  Every algorithm takes the cells of the block(s) it works on, offsets into them and the
  world, and returns how it ended, the cells as it left them, and the world. Touching a
  cell outside the block, reading or destroying raw memory and assigning to raw memory
  are undefined behaviour. An object whose construction throws does not exist; an object
  whose assignment throws, or whose contents a throwing move was taking, is left with an
  unspecified value (\<open>MovedFrom\<close>).
\<close>

definition destroy_at :: "'a slot list \<Rightarrow> nat \<Rightarrow> world \<Rightarrow> error option \<times> 'a slot list \<times> world" where
  "destroy_at b i w =
     (if i < length b \<and> constructed (b ! i)
      then (None, b[i := Raw], record_event EvDestroy w)
      else (Some Undefined, b, w))"

fun destroy_n :: "'a slot list \<Rightarrow> nat \<Rightarrow> nat \<Rightarrow> world \<Rightarrow> error option \<times> 'a slot list \<times> world" where
  "destroy_n b i 0 w = (None, b, w)"
| "destroy_n b i (Suc n) w =
     (case destroy_at b i w of
        (None, b1, w1) \<Rightarrow> destroy_n b1 (Suc i) n w1
      | (Some e, b1, w1) \<Rightarrow> (Some e, b1, w1))"

text \<open>Placement new from constructor arguments: \<^verbatim>\<open>new (p + i) T(args...)\<close>.\<close>

definition construct_at :: "'a slot list \<Rightarrow> nat \<Rightarrow> 'a \<Rightarrow> world \<Rightarrow> error option \<times> 'a slot list \<times> world" where
  "construct_at b i x w =
     (if i < length b then
        (case fallible EvConstruct w of
           (ok, w1) \<Rightarrow> if ok then (None, b[i := Obj x], w1) else (Some Thrown, b, w1))
      else (Some Undefined, b, w))"

definition copy_construct_at ::
  "'a slot list \<Rightarrow> nat \<Rightarrow> 'a slot list \<Rightarrow> nat \<Rightarrow> world \<Rightarrow> error option \<times> 'a slot list \<times> world" where
  "copy_construct_at src s dst d w =
     (if s < length src \<and> constructed (src ! s) \<and> d < length dst then
        (case fallible EvCopyConstruct w of
           (ok, w1) \<Rightarrow> if ok then (None, dst[d := src ! s], w1) else (Some Thrown, dst, w1))
      else (Some Undefined, dst, w))"

text \<open>
  \<^verbatim>\<open>std::uninitialized_copy_n\<close>: if a copy throws, the copies made so far are destroyed
  and the exception goes on.
\<close>

fun uninitialized_copy_n ::
  "'a slot list \<Rightarrow> nat \<Rightarrow> nat \<Rightarrow> 'a slot list \<Rightarrow> nat \<Rightarrow> world \<Rightarrow> error option \<times> 'a slot list \<times> world" where
  "uninitialized_copy_n src s 0 dst d w = (None, dst, w)"
| "uninitialized_copy_n src s (Suc n) dst d w =
     (case copy_construct_at src s dst d w of
        (Some e, dst1, w1) \<Rightarrow> (Some e, dst1, w1)
      | (None, dst1, w1) \<Rightarrow>
          (case uninitialized_copy_n src (Suc s) n dst1 (Suc d) w1 of
             (e, dst2, w2) \<Rightarrow>
               if e = Some Thrown
               then (case destroy_at dst2 d w2 of (e3, dst3, w3) \<Rightarrow> (Some Thrown, dst3, w3))
               else (e, dst2, w2)))"

text \<open>
  Move construction of \<open>dst[d]\<close> from \<open>src[s]\<close>. It can throw only when the element
  type's move constructor is not \<^verbatim>\<open>noexcept\<close>.
\<close>

definition move_step :: "'a elem_type \<Rightarrow> world \<Rightarrow> bool \<times> world" where
  "move_step T w =
     (if is_nothrow_move_constructible T then (True, record_event EvMoveConstruct w)
      else fallible EvMoveConstruct w)"

definition move_construct_at ::
  "'a elem_type \<Rightarrow> 'a slot list \<Rightarrow> nat \<Rightarrow> 'a slot list \<Rightarrow> nat \<Rightarrow> world \<Rightarrow>
   error option \<times> 'a slot list \<times> 'a slot list \<times> world" where
  "move_construct_at T src s dst d w =
     (if s < length src \<and> constructed (src ! s) \<and> d < length dst then
        (case move_step T w of
           (ok, w1) \<Rightarrow>
             if ok then (None, src[s := MovedFrom], dst[d := src ! s], w1)
             else (Some Thrown, src[s := MovedFrom], dst, w1))
      else (Some Undefined, src, dst, w))"

fun uninitialized_move_n ::
  "'a elem_type \<Rightarrow> 'a slot list \<Rightarrow> nat \<Rightarrow> nat \<Rightarrow> 'a slot list \<Rightarrow> nat \<Rightarrow> world \<Rightarrow>
   error option \<times> 'a slot list \<times> 'a slot list \<times> world" where
  "uninitialized_move_n T src s 0 dst d w = (None, src, dst, w)"
| "uninitialized_move_n T src s (Suc n) dst d w =
     (case move_construct_at T src s dst d w of
        (Some e, src1, dst1, w1) \<Rightarrow> (Some e, src1, dst1, w1)
      | (None, src1, dst1, w1) \<Rightarrow>
          (case uninitialized_move_n T src1 (Suc s) n dst1 (Suc d) w1 of
             (e, src2, dst2, w2) \<Rightarrow>
               if e = Some Thrown
               then (case destroy_at dst2 d w2 of (e3, dst3, w3) \<Rightarrow> (Some Thrown, src2, dst3, w3))
               else (e, src2, dst2, w2)))"

text \<open>
  The transfer that \<^verbatim>\<open>Reserve\<close>, \<^verbatim>\<open>PushBack\<close>, \<^verbatim>\<open>EmplaceBack\<close> and \<^verbatim>\<open>Emplace\<close> select with
  \<^verbatim>\<open>if constexpr (is_nothrow_move_constructible_v<T> || !is_copy_constructible_v<T>)\<close>.
\<close>

definition move_or_copy_n ::
  "'a elem_type \<Rightarrow> 'a slot list \<Rightarrow> nat \<Rightarrow> nat \<Rightarrow> 'a slot list \<Rightarrow> nat \<Rightarrow> world \<Rightarrow>
   error option \<times> 'a slot list \<times> 'a slot list \<times> world" where
  "move_or_copy_n T src s n dst d w =
     (if is_nothrow_move_constructible T \<or> \<not> is_copy_constructible T
      then uninitialized_move_n T src s n dst d w
      else (case uninitialized_copy_n src s n dst d w of (e, dst1, w1) \<Rightarrow> (e, src, dst1, w1)))"

definition value_construct_at ::
  "'a elem_type \<Rightarrow> 'a slot list \<Rightarrow> nat \<Rightarrow> world \<Rightarrow> error option \<times> 'a slot list \<times> world" where
  "value_construct_at T dst d w =
     (if d < length dst then
        (case fallible EvDefaultConstruct w of
           (ok, w1) \<Rightarrow>
             if ok then (None, dst[d := Obj (default_value T)], w1) else (Some Thrown, dst, w1))
      else (Some Undefined, dst, w))"

fun uninitialized_value_construct_n ::
  "'a elem_type \<Rightarrow> 'a slot list \<Rightarrow> nat \<Rightarrow> nat \<Rightarrow> world \<Rightarrow> error option \<times> 'a slot list \<times> world" where
  "uninitialized_value_construct_n T dst d 0 w = (None, dst, w)"
| "uninitialized_value_construct_n T dst d (Suc n) w =
     (case value_construct_at T dst d w of
        (Some e, dst1, w1) \<Rightarrow> (Some e, dst1, w1)
      | (None, dst1, w1) \<Rightarrow>
          (case uninitialized_value_construct_n T dst1 (Suc d) n w1 of
             (e, dst2, w2) \<Rightarrow>
               if e = Some Thrown
               then (case destroy_at dst2 d w2 of (e3, dst3, w3) \<Rightarrow> (Some Thrown, dst3, w3))
               else (e, dst2, w2)))"

text \<open>\<^verbatim>\<open>std::copy\<close> from one block into another: copy assignment, front to back.\<close>

definition copy_assign_at ::
  "'a slot list \<Rightarrow> nat \<Rightarrow> 'a slot list \<Rightarrow> nat \<Rightarrow> world \<Rightarrow> error option \<times> 'a slot list \<times> world" where
  "copy_assign_at src s dst d w =
     (if s < length src \<and> constructed (src ! s) \<and> d < length dst \<and> constructed (dst ! d) then
        (case fallible EvCopyAssign w of
           (ok, w1) \<Rightarrow>
             if ok then (None, dst[d := src ! s], w1) else (Some Thrown, dst[d := MovedFrom], w1))
      else (Some Undefined, dst, w))"

fun std_copy ::
  "'a slot list \<Rightarrow> nat \<Rightarrow> nat \<Rightarrow> 'a slot list \<Rightarrow> nat \<Rightarrow> world \<Rightarrow> error option \<times> 'a slot list \<times> world" where
  "std_copy src s 0 dst d w = (None, dst, w)"
| "std_copy src s (Suc n) dst d w =
     (case copy_assign_at src s dst d w of
        (Some e, dst1, w1) \<Rightarrow> (Some e, dst1, w1)
      | (None, dst1, w1) \<Rightarrow> std_copy src (Suc s) n dst1 (Suc d) w1)"

text \<open>Move assignment \<^verbatim>\<open>b[to] = std::move(b[from])\<close> inside one block.\<close>

definition move_assign_at ::
  "'a slot list \<Rightarrow> nat \<Rightarrow> nat \<Rightarrow> world \<Rightarrow> error option \<times> 'a slot list \<times> world" where
  "move_assign_at b from to w =
     (if from < length b \<and> constructed (b ! from) \<and> to < length b \<and> constructed (b ! to) then
        (case fallible EvMoveAssign w of
           (ok, w1) \<Rightarrow>
             if ok then (None, b[to := b ! from, from := MovedFrom], w1)
             else (Some Thrown, b[to := MovedFrom, from := MovedFrom], w1))
      else (Some Undefined, b, w))"

text \<open>\<^verbatim>\<open>std::move(first, first + n, d_first)\<close>, front to back.\<close>

fun std_move ::
  "'a slot list \<Rightarrow> nat \<Rightarrow> nat \<Rightarrow> nat \<Rightarrow> world \<Rightarrow> error option \<times> 'a slot list \<times> world" where
  "std_move b first 0 d_first w = (None, b, w)"
| "std_move b first (Suc n) d_first w =
     (case move_assign_at b first d_first w of
        (Some e, b1, w1) \<Rightarrow> (Some e, b1, w1)
      | (None, b1, w1) \<Rightarrow> std_move b1 (Suc first) n (Suc d_first) w1)"

text \<open>\<^verbatim>\<open>std::move_backward(first, first + n, d_last)\<close>, back to front.\<close>

fun std_move_backward ::
  "'a slot list \<Rightarrow> nat \<Rightarrow> nat \<Rightarrow> nat \<Rightarrow> world \<Rightarrow> error option \<times> 'a slot list \<times> world" where
  "std_move_backward b first 0 d_last w = (None, b, w)"
| "std_move_backward b first (Suc n) d_last w =
     (if d_last = 0 then (Some Undefined, b, w)
      else (case move_assign_at b (first + n) (d_last - 1) w of
              (Some e, b1, w1) \<Rightarrow> (Some e, b1, w1)
            | (None, b1, w1) \<Rightarrow> std_move_backward b1 first n (d_last - 1) w1))"

text \<open>Move construction \<^verbatim>\<open>new (b + to) T(std::move(b[from]))\<close> inside one block.\<close>

definition move_construct_within ::
  "'a elem_type \<Rightarrow> 'a slot list \<Rightarrow> nat \<Rightarrow> nat \<Rightarrow> world \<Rightarrow> error option \<times> 'a slot list \<times> world" where
  "move_construct_within T b from to w =
     (if from < length b \<and> constructed (b ! from) \<and> to < length b then
        (case move_step T w of
           (ok, w1) \<Rightarrow>
             if ok then (None, b[to := b ! from, from := MovedFrom], w1)
             else (Some Thrown, b[from := MovedFrom], w1))
      else (Some Undefined, b, w))"

text \<open>Move assignment of a local object holding \<open>x\<close> into \<open>b[i]\<close>.\<close>

definition move_assign_value ::
  "'a slot list \<Rightarrow> nat \<Rightarrow> 'a \<Rightarrow> world \<Rightarrow> error option \<times> 'a slot list \<times> world" where
  "move_assign_value b i x w =
     (if i < length b \<and> constructed (b ! i) then
        (case fallible EvMoveAssign w of
           (ok, w1) \<Rightarrow>
             if ok then (None, b[i := Obj x], w1) else (Some Thrown, b[i := MovedFrom], w1))
      else (Some Undefined, b, w))"

section \<open>RawMemory\<close>

definition get_cells :: "'a RawMemory \<Rightarrow> 'a slot list" where
  "get_cells m = cells (buffer m)"

definition put_cells :: "'a RawMemory \<Rightarrow> 'a slot list \<Rightarrow> 'a RawMemory" where
  "put_cells m b = m\<lparr>buffer := with_cells (buffer m) b\<rparr>"

text \<open>
  \<^verbatim>\<open>operator new\<close> may throw \<^verbatim>\<open>std::bad_alloc\<close>; nothing is allocated for \<open>n = 0\<close>.
  The source asks for \<^verbatim>\<open>n_ * sizeof(T)\<close> bytes, a product computed in \<^verbatim>\<open>size_t\<close>. The
  block of the model has \<open>n\<close> cells, which is the block the source gets as long as the
  product does not wrap around, that is for \<open>n * size_of T < 2 ^ 64\<close>. For a larger \<open>n\<close>
  the source gets a smaller block and this definition does not describe it; such an \<open>n\<close>
  can only come from the caller, and the theorems about \<^verbatim>\<open>Reserve\<close> and \<^verbatim>\<open>Resize\<close> exclude it.
\<close>

definition Allocate :: "nat \<Rightarrow> world \<Rightarrow> (error + 'a ptr) \<times> world" where
  "Allocate n w =
     (if n \<noteq> 0 then
        (case fallible (EvAllocate n) w of
           (ok, w1) \<Rightarrow> if ok then (Inr (Block (replicate n Raw)), w1) else (Inl Thrown, w1))
      else (Inr Null, w))"

definition Deallocate :: "'a ptr \<Rightarrow> world \<Rightarrow> error option \<times> world" where
  "Deallocate buf w =
     (case buf of
        Null \<Rightarrow> (None, w)
      | Block b \<Rightarrow> (None, record_event (EvDeallocate (length (filter constructed b))) w)
      | Dangling \<Rightarrow> (Some Undefined, w))"

definition RawMemory_default :: "'a RawMemory" where
  "RawMemory_default = \<lparr>buffer = Null, capacity = 0\<rparr>"

definition RawMemory_new :: "nat \<Rightarrow> world \<Rightarrow> (error + 'a RawMemory) \<times> world" where
  "RawMemory_new cap w =
     (case Allocate cap w of
        (Inl e, w1) \<Rightarrow> (Inl e, w1)
      | (Inr p, w1) \<Rightarrow> (Inr \<lparr>buffer = p, capacity = cap\<rparr>, w1))"

text \<open>The move constructor: the new object and what is left of \<open>other\<close>.\<close>

definition RawMemory_move :: "'a RawMemory \<Rightarrow> 'a RawMemory \<times> 'a RawMemory" where
  "RawMemory_move other =
     (\<lparr>buffer = buffer other, capacity = capacity other\<rparr>, \<lparr>buffer = Null, capacity = 0\<rparr>)"

definition RawMemory_destroy :: "'a RawMemory \<Rightarrow> world \<Rightarrow> error option \<times> world" where
  "RawMemory_destroy m w = Deallocate (buffer m) w"

text \<open>
  Move assignment from another object (\<^verbatim>\<open>this != &rhs_\<close>). The block that \<open>this\<close> held
  is not released: its pointer is overwritten.
\<close>

definition RawMemory_move_assign ::
  "'a RawMemory \<Rightarrow> 'a RawMemory \<Rightarrow> world \<Rightarrow> 'a RawMemory \<times> 'a RawMemory \<times> world" where
  "RawMemory_move_assign this rhs w =
     (\<lparr>buffer = buffer rhs, capacity = capacity rhs\<rparr>,
      \<lparr>buffer = Null, capacity = 0\<rparr>,
      (case buffer this of Block b \<Rightarrow> record_event EvLeak w | Null \<Rightarrow> w | Dangling \<Rightarrow> w))"

definition RawMemory_Swap :: "'a RawMemory \<Rightarrow> 'a RawMemory \<Rightarrow> 'a RawMemory \<times> 'a RawMemory" where
  "RawMemory_Swap this other =
     (\<lparr>buffer = buffer other, capacity = capacity other\<rparr>,
      \<lparr>buffer = buffer this, capacity = capacity this\<rparr>)"

text \<open>
  \<^verbatim>\<open>operator delete(p + off)\<close> on a pointer into the block: only the address that
  \<^verbatim>\<open>operator new\<close> returned may be passed, and then the whole block is released.
\<close>

definition operator_delete_at :: "'a ptr \<Rightarrow> nat \<Rightarrow> world \<Rightarrow> error option \<times> 'a ptr \<times> world" where
  "operator_delete_at buf off w =
     (if off \<noteq> 0 then (Some Undefined, buf, w)
      else (case buf of
              Null \<Rightarrow> (None, Null, w)
            | Block b \<Rightarrow> (None, Dangling, record_event (EvDeallocate (length (filter constructed b))) w)
            | Dangling \<Rightarrow> (Some Undefined, Dangling, w)))"

section \<open>Vector: construction, destruction, assignment\<close>

definition set_cells :: "'a Vector \<Rightarrow> 'a slot list \<Rightarrow> 'a Vector" where
  "set_cells v b = v\<lparr>data := put_cells (data v) b\<rparr>"

definition Vector_default :: "'a Vector" where
  "Vector_default = \<lparr>data = RawMemory_default, size_v = 0\<rparr>"

text \<open>
  \<^verbatim>\<open>explicit Vector(size_t size_)\<close>. If a constructor throws, the elements made so far and
  the member \<^verbatim>\<open>data\<close> are destroyed again.
\<close>

definition Vector_n :: "'a elem_type \<Rightarrow> nat \<Rightarrow> world \<Rightarrow> (error + 'a Vector) \<times> world" where
  "Vector_n T n w =
     (case RawMemory_new n w of
        (Inl e, w1) \<Rightarrow> (Inl e, w1)
      | (Inr d, w1) \<Rightarrow>
          (case uninitialized_value_construct_n T (get_cells d) 0 n w1 of
             (None, b, w2) \<Rightarrow> (Inr \<lparr>data = put_cells d b, size_v = n\<rparr>, w2)
           | (Some e, b, w2) \<Rightarrow>
               (case RawMemory_destroy (put_cells d b) w2 of (e3, w3) \<Rightarrow> (Inl e, w3))))"

text \<open>The copy constructor. If a copy throws, the member \<^verbatim>\<open>data\<close> is destroyed again.\<close>

definition Vector_copy :: "'a Vector \<Rightarrow> world \<Rightarrow> (error + 'a Vector) \<times> world" where
  "Vector_copy other w =
     (case RawMemory_new (size_v other) w of
        (Inl e, w1) \<Rightarrow> (Inl e, w1)
      | (Inr d, w1) \<Rightarrow>
          (case uninitialized_copy_n (get_cells (data other)) 0 (size_v other) (get_cells d) 0 w1 of
             (None, b, w2) \<Rightarrow> (Inr \<lparr>data = put_cells d b, size_v = size_v other\<rparr>, w2)
           | (Some e, b, w2) \<Rightarrow>
               (case RawMemory_destroy (put_cells d b) w2 of (e3, w3) \<Rightarrow> (Inl e, w3))))"

text \<open>The move constructor: the new vector and what is left of \<open>other\<close>.\<close>

definition Vector_move :: "'a Vector \<Rightarrow> 'a Vector \<times> 'a Vector" where
  "Vector_move other =
     (case RawMemory_move (data other) of
        (d, rest) \<Rightarrow> (\<lparr>data = d, size_v = size_v other\<rparr>, \<lparr>data = rest, size_v = 0\<rparr>))"

definition Vector_destroy :: "'a Vector \<Rightarrow> world \<Rightarrow> error option \<times> world" where
  "Vector_destroy v w =
     (case destroy_n (get_cells (data v)) 0 (size_v v) w of
        (Some e, b, w1) \<Rightarrow> (Some e, w1)
      | (None, b, w1) \<Rightarrow> RawMemory_destroy (put_cells (data v) b) w1)"

definition Swap :: "'a Vector \<Rightarrow> 'a Vector \<Rightarrow> 'a Vector \<times> 'a Vector" where
  "Swap this other =
     (case RawMemory_Swap (data this) (data other) of
        (d, od) \<Rightarrow> (\<lparr>data = d, size_v = size_v other\<rparr>, \<lparr>data = od, size_v = size_v this\<rparr>))"

text \<open>The body of copy assignment for \<^verbatim>\<open>this != &other_\<close>.\<close>

definition copy_assign_from ::
  "'a Vector \<Rightarrow> 'a Vector \<Rightarrow> world \<Rightarrow> error option \<times> 'a Vector \<times> world" where
  "copy_assign_from other this w =
     (if size_v other \<le> capacity (data this) then
        (if size_v this \<le> size_v other then
           (case std_copy (get_cells (data other)) 0 (size_v this) (get_cells (data this)) 0 w of
              (Some e, b, w1) \<Rightarrow> (Some e, set_cells this b, w1)
            | (None, b, w1) \<Rightarrow>
                (case uninitialized_copy_n (get_cells (data other)) (size_v this)
                        (size_v other - size_v this) b (size_v this) w1 of
                   (Some e, b2, w2) \<Rightarrow> (Some e, set_cells this b2, w2)
                 | (None, b2, w2) \<Rightarrow> (None, (set_cells this b2)\<lparr>size_v := size_v other\<rparr>, w2)))
         else
           (case std_copy (get_cells (data other)) 0 (size_v other) (get_cells (data this)) 0 w of
              (Some e, b, w1) \<Rightarrow> (Some e, set_cells this b, w1)
            | (None, b, w1) \<Rightarrow>
                (case destroy_n b (size_v other) (size_v this - size_v other) w1 of
                   (Some e, b2, w2) \<Rightarrow> (Some e, set_cells this b2, w2)
                 | (None, b2, w2) \<Rightarrow> (None, (set_cells this b2)\<lparr>size_v := size_v other\<rparr>, w2))))
      else
        (case Vector_copy other w of
           (Inl e, w1) \<Rightarrow> (Some e, this, w1)
         | (Inr other_copy, w1) \<Rightarrow>
             (case Swap this other_copy of
                (this1, other_copy1) \<Rightarrow>
                  (case Vector_destroy other_copy1 w1 of (e, w2) \<Rightarrow> (e, this1, w2)))))"

text \<open>
  The assignment operators work on two objects that may be the same one, so they are
  given the addresses of the objects and the memory that maps an address to the object
  there.
\<close>

type_synonym 'a objects = "nat \<Rightarrow> 'a Vector"

definition assign_copy ::
  "nat \<Rightarrow> nat \<Rightarrow> 'a objects \<Rightarrow> world \<Rightarrow> error option \<times> 'a objects \<times> world" where
  "assign_copy this other mem w =
     (if this \<noteq> other then
        (case copy_assign_from (mem other) (mem this) w of
           (e, v, w1) \<Rightarrow> (e, mem(this := v), w1))
      else (None, mem, w))"

definition assign_move :: "nat \<Rightarrow> nat \<Rightarrow> 'a objects \<Rightarrow> 'a objects" where
  "assign_move this other mem =
     (case Swap (mem this) (mem other) of
        (v, ov) \<Rightarrow> (mem(this := v))(other := ov))"

text \<open>A memory in which every address holds a default-constructed vector.\<close>

definition no_objects :: "'a objects" where
  "no_objects = (\<lambda>address. Vector_default)"

section \<open>Vector: capacity and size\<close>

text \<open>
  Sizes and capacities are \<^verbatim>\<open>size_t\<close> values and are modelled as natural numbers:
  \<^verbatim>\<open>size * 2\<close> cannot wrap around for a vector that fits into an address space. The
  arguments of \<^verbatim>\<open>Reserve\<close> and \<^verbatim>\<open>Resize\<close> are whatever the caller passes; the model
  describes these calls for a \<open>new_capacity\<close> or \<open>new_size\<close> whose byte count fits into a
  \<^verbatim>\<open>size_t\<close>.
\<close>

definition Reserve ::
  "'a elem_type \<Rightarrow> nat \<Rightarrow> 'a Vector \<Rightarrow> world \<Rightarrow> error option \<times> 'a Vector \<times> world" where
  "Reserve T new_capacity v w =
     (if new_capacity \<le> capacity (data v) then (None, v, w)
      else
        (case RawMemory_new new_capacity w of
           (Inl e, w1) \<Rightarrow> (Some e, v, w1)
         | (Inr new_data, w1) \<Rightarrow>
             (case move_or_copy_n T (get_cells (data v)) 0 (size_v v) (get_cells new_data) 0 w1 of
                (Some e, old, new, w2) \<Rightarrow>
                  (case RawMemory_destroy (put_cells new_data new) w2 of
                     (e3, w3) \<Rightarrow> (Some e, set_cells v old, w3))
              | (None, old, new, w2) \<Rightarrow>
                  (case destroy_n old 0 (size_v v) w2 of
                     (Some e, old1, w3) \<Rightarrow> (Some e, set_cells v old1, w3)
                   | (None, old1, w3) \<Rightarrow>
                       (case RawMemory_Swap (put_cells (data v) old1) (put_cells new_data new) of
                          (d, nd) \<Rightarrow>
                            (case RawMemory_destroy nd w3 of
                               (e, w4) \<Rightarrow> (e, v\<lparr>data := d\<rparr>, w4)))))))"


definition ShrinkToFit ::
  "'a elem_type \<Rightarrow> 'a Vector \<Rightarrow> world \<Rightarrow> error option \<times> 'a Vector \<times> world" where
  "ShrinkToFit T v w =
     (if size_v v = capacity (data v) then (None, v, w)
      else if size_v v = 0 then
        (case RawMemory_move_assign (data v) RawMemory_default w of
           (d, temporary, w1) \<Rightarrow>
             (case RawMemory_destroy temporary w1 of (e, w2) \<Rightarrow> (e, v\<lparr>data := d\<rparr>, w2)))
      else
        (case RawMemory_new (size_v v) w of
           (Inl e, w1) \<Rightarrow> (Some e, v, w1)
         | (Inr new_data, w1) \<Rightarrow>
             (case uninitialized_move_n T (get_cells (data v)) 0 (size_v v) (get_cells new_data) 0 w1 of
                (Some e, old, new, w2) \<Rightarrow>
                  (case RawMemory_destroy (put_cells new_data new) w2 of
                     (e3, w3) \<Rightarrow> (Some e, set_cells v old, w3))
              | (None, old, new, w2) \<Rightarrow>
                  (case RawMemory_Swap (put_cells (data v) old) (put_cells new_data new) of
                     (d, nd) \<Rightarrow>
                       (case RawMemory_destroy nd w2 of
                          (e, w3) \<Rightarrow> (e, v\<lparr>data := d\<rparr>, w3))))))"

section \<open>Vector: adding and removing elements\<close>

definition PopBack :: "'a Vector \<Rightarrow> world \<Rightarrow> error option \<times> 'a Vector \<times> world" where
  "PopBack v w =
     (if size_v v = 0 then (Some AssertFailed, v, w)
      else
        (case destroy_at (get_cells (data v)) (size_v v - 1) w of
           (Some e, b, w1) \<Rightarrow> (Some e, set_cells v b, w1)
         | (None, b, w1) \<Rightarrow> (None, (set_cells v b)\<lparr>size_v := size_v v - 1\<rparr>, w1)))"

definition PushBack ::
  "'a elem_type \<Rightarrow> 'a \<Rightarrow> 'a Vector \<Rightarrow> world \<Rightarrow> error option \<times> 'a Vector \<times> world" where
  "PushBack T value v w =
     (if capacity (data v) \<le> size_v v then
        (case RawMemory_new (if size_v v = 0 then 1 else size_v v * 2) w of
           (Inl e, w1) \<Rightarrow> (Some e, v, w1)
         | (Inr new_data, w1) \<Rightarrow>
             (case construct_at (get_cells new_data) (size_v v) value w1 of
                (Some e, new, w2) \<Rightarrow>
                  (case RawMemory_destroy (put_cells new_data new) w2 of
                     (e3, w3) \<Rightarrow> (Some e, v, w3))
              | (None, new, w2) \<Rightarrow>
                  (case move_or_copy_n T (get_cells (data v)) 0 (size_v v) new 0 w2 of
                     (Some e, old, new1, w3) \<Rightarrow>
                       (case RawMemory_destroy (put_cells new_data new1) w3 of
                          (e4, w4) \<Rightarrow> (Some e, set_cells v old, w4))
                   | (None, old, new1, w3) \<Rightarrow>
                       (case destroy_n old 0 (size_v v) w3 of
                          (Some e, old1, w4) \<Rightarrow> (Some e, set_cells v old1, w4)
                        | (None, old1, w4) \<Rightarrow>
                            (case RawMemory_Swap (put_cells (data v) old1) (put_cells new_data new1) of
                               (d, nd) \<Rightarrow>
                                 (case RawMemory_destroy nd w4 of
                                    (e, w5) \<Rightarrow> (e, \<lparr>data = d, size_v = size_v v + 1\<rparr>, w5)))))))
      else
        (case construct_at (get_cells (data v)) (size_v v) value w of
           (Some e, b, w1) \<Rightarrow> (Some e, set_cells v b, w1)
         | (None, b, w1) \<Rightarrow> (None, (set_cells v b)\<lparr>size_v := size_v v + 1\<rparr>, w1)))"

text \<open>
  \<^verbatim>\<open>EmplaceBack\<close> returns a reference to the new element, \<^verbatim>\<open>data[size++]\<close>: here its
  index.
\<close>

definition EmplaceBack ::
  "'a elem_type \<Rightarrow> 'a \<Rightarrow> 'a Vector \<Rightarrow> world \<Rightarrow> (error + nat) \<times> 'a Vector \<times> world" where
  "EmplaceBack T args v w =
     (if capacity (data v) \<le> size_v v then
        (case RawMemory_new (if size_v v = 0 then 1 else size_v v * 2) w of
           (Inl e, w1) \<Rightarrow> (Inl e, v, w1)
         | (Inr new_data, w1) \<Rightarrow>
             (case construct_at (get_cells new_data) (size_v v) args w1 of
                (Some e, new, w2) \<Rightarrow>
                  (case RawMemory_destroy (put_cells new_data new) w2 of
                     (e3, w3) \<Rightarrow> (Inl e, v, w3))
              | (None, new, w2) \<Rightarrow>
                  (case move_or_copy_n T (get_cells (data v)) 0 (size_v v) new 0 w2 of
                     (Some e, old, new1, w3) \<Rightarrow>
                       (case RawMemory_destroy (put_cells new_data new1) w3 of
                          (e4, w4) \<Rightarrow> (Inl e, set_cells v old, w4))
                   | (None, old, new1, w3) \<Rightarrow>
                       (case destroy_n old 0 (size_v v) w3 of
                          (Some e, old1, w4) \<Rightarrow> (Inl e, set_cells v old1, w4)
                        | (None, old1, w4) \<Rightarrow>
                            (case RawMemory_Swap (put_cells (data v) old1) (put_cells new_data new1) of
                               (d, nd) \<Rightarrow>
                                 (case RawMemory_destroy nd w4 of
                                    (Some e, w5) \<Rightarrow> (Inl e, \<lparr>data = d, size_v = size_v v\<rparr>, w5)
                                  | (None, w5) \<Rightarrow>
                                      (Inr (size_v v), \<lparr>data = d, size_v = size_v v + 1\<rparr>, w5)))))))
      else
        (case construct_at (get_cells (data v)) (size_v v) args w of
           (Some e, b, w1) \<Rightarrow> (Inl e, set_cells v b, w1)
         | (None, b, w1) \<Rightarrow> (Inr (size_v v), (set_cells v b)\<lparr>size_v := size_v v + 1\<rparr>, w1)))"

text \<open>
  \<^verbatim>\<open>int position = pos_ - begin()\<close>: the difference of two pointers is narrowed to a
  32-bit \<^verbatim>\<open>int\<close>, modulo \<open>2^32\<close>.
\<close>

definition to_int :: "nat \<Rightarrow> int" where
  "to_int n = (int n + 2 ^ 31) mod 2 ^ 32 - 2 ^ 31"

text \<open>
  The \<^verbatim>\<open>try\<close> block of \<^verbatim>\<open>Emplace\<close> when the capacity suffices. The local \<^verbatim>\<open>new_s\<close> is
  destroyed when its scope is left, normally or by an exception.
\<close>

definition Emplace_in_place ::
  "'a elem_type \<Rightarrow> nat \<Rightarrow> int \<Rightarrow> 'a \<Rightarrow> 'a Vector \<Rightarrow> world \<Rightarrow> error option \<times> 'a slot list \<times> world" where
  "Emplace_in_place T pos position args v w =
     (if pos \<noteq> size_v v then
        (case fallible EvConstruct w of
           (ok, w1) \<Rightarrow>
             if \<not> ok then (Some Thrown, get_cells (data v), w1)
             else
               (case (case move_construct_within T (get_cells (data v)) (size_v v - 1) (size_v v) w1 of
                        (Some e, b1, w2) \<Rightarrow> (Some e, b1, w2)
                      | (None, b1, w2) \<Rightarrow>
                          if position < 0 \<or> size_v v - 1 < nat position then (Some Undefined, b1, w2)
                          else
                            (case std_move_backward b1 (nat position)
                                    (size_v v - 1 - nat position) (size_v v) w2 of
                               (Some e, b2, w3) \<Rightarrow> (Some e, b2, w3)
                             | (None, b2, w3) \<Rightarrow> move_assign_value b2 (nat position) args w3)) of
                  (e, b3, w4) \<Rightarrow> (e, b3, record_event EvDestroy w4)))
      else construct_at (get_cells (data v)) (size_v v) args w)"

definition Emplace ::
  "'a elem_type \<Rightarrow> nat \<Rightarrow> 'a \<Rightarrow> 'a Vector \<Rightarrow> world \<Rightarrow> (error + nat) \<times> 'a Vector \<times> world" where
  "Emplace T pos args v w =
     (if \<not> pos \<le> size_v v then (Inl AssertFailed, v, w)
      else
        (let position = to_int pos in
         if capacity (data v) \<le> size_v v then
           (case RawMemory_new (if size_v v = 0 then 1 else size_v v * 2) w of
              (Inl e, w1) \<Rightarrow> (Inl e, v, w1)
            | (Inr new_data, w1) \<Rightarrow>
                if position < 0 then (Inl Undefined, v, w1)
                else
                  (case construct_at (get_cells new_data) (nat position) args w1 of
                     (Some e, new, w2) \<Rightarrow>
                       (case RawMemory_destroy (put_cells new_data new) w2 of
                          (e3, w3) \<Rightarrow> (Inl e, v, w3))
                   | (None, new, w2) \<Rightarrow>
                       (case move_or_copy_n T (get_cells (data v)) 0 (nat position) new 0 w2 of
                          (Some e, old, new1, w3) \<Rightarrow>
                            (case RawMemory_destroy (put_cells new_data new1) w3 of
                               (e4, w4) \<Rightarrow> (Inl e, set_cells v old, w4))
                        | (None, old, new1, w3) \<Rightarrow>
                            (case move_or_copy_n T old (nat position) (size_v v - nat position)
                                    new1 (nat position + 1) w3 of
                               (Some e, old1, new2, w4) \<Rightarrow>
                                 (case RawMemory_destroy (put_cells new_data new2) w4 of
                                    (e5, w5) \<Rightarrow> (Inl e, set_cells v old1, w5))
                             | (None, old1, new2, w4) \<Rightarrow>
                                 (case destroy_n old1 0 (size_v v) w4 of
                                    (Some e, old2, w5) \<Rightarrow> (Inl e, set_cells v old2, w5)
                                  | (None, old2, w5) \<Rightarrow>
                                      (case RawMemory_Swap (put_cells (data v) old2)
                                              (put_cells new_data new2) of
                                         (d, nd) \<Rightarrow>
                                           (case RawMemory_destroy nd w5 of
                                              (Some e, w6) \<Rightarrow>
                                                (Inl e, \<lparr>data = d, size_v = size_v v\<rparr>, w6)
                                            | (None, w6) \<Rightarrow>
                                                (Inr (nat position),
                                                 \<lparr>data = d, size_v = size_v v + 1\<rparr>, w6))))))))
         else
           (case Emplace_in_place T pos position args v w of
              (None, b, w1) \<Rightarrow>
                if position < 0 then (Inl Undefined, set_cells v b, w1)
                else (Inr (nat position), (set_cells v b)\<lparr>size_v := size_v v + 1\<rparr>, w1)
            | (Some e, b, w1) \<Rightarrow>
                if e = Thrown then
                  (case operator_delete_at (buffer (data (set_cells v b))) (size_v v) w1 of
                     (None, p, w2) \<Rightarrow> (Inl Thrown, v\<lparr>data := (data v)\<lparr>buffer := p\<rparr>\<rparr>, w2)
                   | (Some e2, p, w2) \<Rightarrow> (Inl e2, v\<lparr>data := (data v)\<lparr>buffer := p\<rparr>\<rparr>, w2))
                else (Inl e, set_cells v b, w1))))"

definition Insert ::
  "'a elem_type \<Rightarrow> nat \<Rightarrow> 'a \<Rightarrow> 'a Vector \<Rightarrow> world \<Rightarrow> (error + nat) \<times> 'a Vector \<times> world" where
  "Insert T pos item v w = Emplace T pos item v w"

definition Erase :: "nat \<Rightarrow> 'a Vector \<Rightarrow> world \<Rightarrow> (error + nat) \<times> 'a Vector \<times> world" where
  "Erase pos v w =
     (if \<not> pos \<le> size_v v then (Inl AssertFailed, v, w)
      else
        (let position = to_int pos in
         if position < 0 \<or> size_v v < nat position + 1 then (Inl Undefined, v, w)
         else
           (case std_move (get_cells (data v)) (nat position + 1)
                   (size_v v - (nat position + 1)) (nat position) w of
              (Some e, b, w1) \<Rightarrow> (Inl e, set_cells v b, w1)
            | (None, b, w1) \<Rightarrow>
                (case destroy_at b (size_v v - 1) w1 of
                   (Some e, b1, w2) \<Rightarrow> (Inl e, set_cells v b1, w2)
                 | (None, b1, w2) \<Rightarrow>
                     (Inr (nat position), (set_cells v b1)\<lparr>size_v := size_v v - 1\<rparr>, w2)))))"

section \<open>Sequences of calls\<close>

text \<open>
  A caller's sequence of calls on one vector, run until the first call that does not
  return. The iterators returned by \<^verbatim>\<open>Insert\<close> and \<^verbatim>\<open>Erase\<close> are dropped.
\<close>

datatype 'a call = Call_PushBack 'a | Call_PopBack | Call_Insert nat 'a | Call_Erase nat

fun perform ::
  "'a elem_type \<Rightarrow> 'a call \<Rightarrow> 'a Vector \<Rightarrow> world \<Rightarrow> error option \<times> 'a Vector \<times> world" where
  "perform T (Call_PushBack x) v w = PushBack T x v w"
| "perform T Call_PopBack v w = PopBack v w"
| "perform T (Call_Insert pos x) v w =
     (case Insert T pos x v w of
        (Inl e, v1, w1) \<Rightarrow> (Some e, v1, w1)
      | (Inr it, v1, w1) \<Rightarrow> (None, v1, w1))"
| "perform T (Call_Erase pos) v w =
     (case Erase pos v w of
        (Inl e, v1, w1) \<Rightarrow> (Some e, v1, w1)
      | (Inr it, v1, w1) \<Rightarrow> (None, v1, w1))"

fun run ::
  "'a elem_type \<Rightarrow> 'a call list \<Rightarrow> 'a Vector \<Rightarrow> world \<Rightarrow> error option \<times> 'a Vector \<times> world" where
  "run T [] v w = (None, v, w)"
| "run T (c # cs) v w =
     (case perform T c v w of
        (None, v1, w1) \<Rightarrow> run T cs v1 w1
      | (Some e, v1, w1) \<Rightarrow> (Some e, v1, w1))"

text \<open>
  What the calls are expected to do to the sequence of elements: appending, dropping
  the last element, splicing in and cutting out.
\<close>

fun expected :: "'a call list \<Rightarrow> 'a list \<Rightarrow> 'a list" where
  "expected [] xs = xs"
| "expected (Call_PushBack x # cs) xs = expected cs (xs @ [x])"
| "expected (Call_PopBack # cs) xs = expected cs (butlast xs)"
| "expected (Call_Insert pos x # cs) xs = expected cs (take pos xs @ x # drop pos xs)"
| "expected (Call_Erase pos # cs) xs = expected cs (take pos xs @ drop (Suc pos) xs)"

text \<open>
  A sequence of \<^verbatim>\<open>PushBack\<close> and \<^verbatim>\<open>PopBack\<close> calls only, in which \<^verbatim>\<open>PopBack\<close> is never
  called on an empty vector, when the vector has \<open>n\<close> elements at the start.
\<close>

fun pushes_and_pops :: "'a call list \<Rightarrow> nat \<Rightarrow> bool" where
  "pushes_and_pops [] n = True"
| "pushes_and_pops (Call_PushBack x # cs) n = pushes_and_pops cs (Suc n)"
| "pushes_and_pops (Call_PopBack # cs) n = (0 < n \<and> pushes_and_pops cs (n - 1))"
| "pushes_and_pops (Call_Insert pos x # cs) n = False"
| "pushes_and_pops (Call_Erase pos # cs) n = False"

fun pushes :: "'a call list \<Rightarrow> nat" where
  "pushes [] = 0"
| "pushes (Call_PushBack x # cs) = Suc (pushes cs)"
| "pushes (c # cs) = pushes cs"

fun pops :: "'a call list \<Rightarrow> nat" where
  "pops [] = 0"
| "pops (Call_PopBack # cs) = Suc (pops cs)"
| "pops (c # cs) = pops cs"

text \<open>
  An environment in which nothing has happened yet and nothing will throw, and two element
  types over the integers: one like \<^verbatim>\<open>int\<close>, and one that can be copied and whose move
  constructor may throw.
\<close>

definition no_faults :: world where
  "no_faults = \<lparr>fault = None, trace = []\<rparr>"

definition int_type :: "int elem_type" where
  "int_type = \<lparr>is_nothrow_move_constructible = True, is_copy_constructible = True,
               default_value = 0, size_of = 4\<rparr>"

definition throwing_type :: "int elem_type" where
  "throwing_type = \<lparr>is_nothrow_move_constructible = False, is_copy_constructible = True,
                    default_value = 0, size_of = 4\<rparr>"

section \<open>Properties of the representation\<close>

lemma well_formed_Vec: "length xs \<le> c \<Longrightarrow> well_formed (Vec xs c)"
  by (auto simp: well_formed_def Vec_def list_all_iff)

lemma elems_Vec [simp]: "length xs \<le> c \<Longrightarrow> elems (Vec xs c) = xs"
  by (cases "c = 0") (simp_all add: elems_def Vec_def comp_def)

lemma size_Vec [simp]: "size_v (Vec xs c) = length xs"
  by (simp add: Vec_def)

lemma capacity_Vec [simp]: "capacity (data (Vec xs c)) = c"
  by (simp add: Vec_def)

lemma live_Vec [simp]: "length xs \<le> c \<Longrightarrow> live (Vec xs c) = Inr xs"
  by (cases "c = 0") (simp_all add: live_def Vec_def comp_def list_all_iff)

section \<open>Comparison operators against the lexicographic order\<close>

lemma std_equal_iff: "std_equal xs ys \<longleftrightarrow> xs = ys"
proof -
  have "length xs = length ys \<Longrightarrow> equal_loop xs ys \<longleftrightarrow> xs = ys"
    by (induction xs ys rule: equal_loop.induct) auto
  then show ?thesis
    by (auto simp: std_equal_def)
qed

lemma lexicographical_compare_lexord:
  "lexicographical_compare xs ys \<longleftrightarrow> (xs, ys) \<in> lexord {(a, b). a < (b::'a::linorder)}"
  by (induction xs ys rule: lexicographical_compare.induct) (auto simp: neq_Nil_conv)

lemma three_way_less:
  "lexicographical_compare_three_way xs ys = SO_less \<longleftrightarrow>
     lexicographical_compare xs (ys::'a::linorder list)"
  by (induction xs ys rule: lexicographical_compare_three_way.induct) auto

lemma three_way_greater:
  "lexicographical_compare_three_way xs ys = SO_greater \<longleftrightarrow>
     lexicographical_compare ys (xs::'a::linorder list)"
  by (induction xs ys rule: lexicographical_compare_three_way.induct) auto

lemma three_way_equal:
  "lexicographical_compare_three_way xs ys = SO_equal \<longleftrightarrow> xs = (ys::'a::linorder list)"
  by (induction xs ys rule: lexicographical_compare_three_way.induct) auto

lemma operator_lt_Vec:
  "length xs \<le> c \<Longrightarrow> length ys \<le> d \<Longrightarrow>
   operator_lt (Vec xs c) (Vec ys d) = Inr ((xs, ys) \<in> lexord {(a, b). a < (b::'a::linorder)})"
  by (simp add: operator_lt_def on_ranges_def lexicographical_compare_lexord)

lemma operator_eq_Vec:
  "length xs \<le> c \<Longrightarrow> length ys \<le> d \<Longrightarrow> operator_eq (Vec xs c) (Vec ys d) = Inr (xs = ys)"
  by (simp add: operator_eq_def on_ranges_def std_equal_iff)

lemma operator_gt_Vec:
  "length xs \<le> c \<Longrightarrow> length ys \<le> d \<Longrightarrow>
   operator_gt (Vec xs c) (Vec ys d) = Inr ((ys, xs) \<notin> lexord {(a, b). a < (b::'a::linorder)})"
  by (simp add: operator_gt_def operator_le_def operator_lt_def on_ranges_def
      lexicographical_compare_lexord)

lemma operator_ne_Vec:
  "length xs \<le> c \<Longrightarrow> length ys \<le> d \<Longrightarrow> operator_ne (Vec xs c) (Vec ys d) = Inr (xs \<noteq> ys)"
  by (simp add: operator_ne_def operator_eq_Vec)

lemma operator_le_Vec:
  "length xs \<le> c \<Longrightarrow> length ys \<le> d \<Longrightarrow>
   operator_le (Vec xs c) (Vec ys d) = Inr ((ys, xs) \<notin> lexord {(a, b). a < (b::'a::linorder)})"
  by (simp add: operator_le_def operator_lt_Vec)

lemma operator_ge_Vec:
  "length xs \<le> c \<Longrightarrow> length ys \<le> d \<Longrightarrow>
   operator_ge (Vec xs c) (Vec ys d) = Inr ((xs, ys) \<notin> lexord {(a, b). a < (b::'a::linorder)})"
  by (simp add: operator_ge_def operator_lt_Vec)

lemma operator_spaceship_Vec:
  assumes "length xs \<le> c" "length ys \<le> d"
  shows "operator_spaceship (Vec xs c) (Vec ys d) =
     Inr (if (xs, ys) \<in> lexord {(a, b). a < (b::'a::linorder)} then SO_less
          else if xs = ys then SO_equal else SO_greater)"
proof -
  have "lexicographical_compare_three_way xs ys =
      (if lexicographical_compare xs ys then SO_less
       else if xs = ys then SO_equal else SO_greater)"
    using three_way_less [of xs ys] three_way_equal [of xs ys]
    by (cases "lexicographical_compare_three_way xs ys") auto
  with assms show ?thesis
    by (simp add: operator_spaceship_def on_ranges_def lexicographical_compare_lexord)
qed

text \<open>
  C2. The claim: every comparison operator agrees with the lexicographic comparison of
  the live elements, in particular \<open>a > b\<close> holds exactly when \<open>b\<close> is lexicographically
  less than \<open>a\<close>. \<^verbatim>\<open>operator>\<close> returns \<^verbatim>\<open>lhs_ <= rhs_\<close>: with \<open>a = {1,2,4}\<close> and
  \<open>b = {1,2,3}\<close>, \<open>b < a\<close> is true and \<open>b\<close> is lexicographically less than \<open>a\<close>, yet
  \<open>a > b\<close> is false (and \<open>b > a\<close> is true).
\<close>

theorem operator_gt_contradicts_lexicographic:
  "operator_gt (Vec [1, 2, 4 :: int] 3) (Vec [1, 2, 3] 3) = Inr False \<and>
   operator_gt (Vec [1, 2, 3 :: int] 3) (Vec [1, 2, 4] 3) = Inr True \<and>
   operator_lt (Vec [1, 2, 3 :: int] 3) (Vec [1, 2, 4] 3) = Inr True \<and>
   ([1, 2, 3], [1, 2, 4 :: int]) \<in> lexord {(a, b). a < b}"
  by (simp add: operator_gt_def operator_le_def operator_lt_def on_ranges_def)

section \<open>Effects of the storage algorithms when nothing throws\<close>

lemma fault_record_event [simp]: "fault (record_event e w) = fault w"
  by (simp add: record_event_def)

lemma fallible_None [simp]: "fault w = None \<Longrightarrow> fallible e w = (True, record_event e w)"
  by (simp add: fallible_def)

lemma with_cells_cells [simp]: "with_cells p (cells p) = p"
  by (cases p) simp_all

lemma put_get_cells [simp]: "put_cells m (get_cells m) = m"
  by (simp add: put_cells_def get_cells_def)

lemma set_cells_same [simp]: "set_cells v (get_cells (data v)) = v"
  by (simp add: set_cells_def)

lemma destroy_n_cells:
  "list_all constructed mid \<Longrightarrow>
   destroy_n (pre @ mid @ post) (length pre) (length mid) w =
     (None, pre @ replicate (length mid) Raw @ post,
      w\<lparr>trace := trace w @ replicate (length mid) EvDestroy\<rparr>)"
proof (induction mid arbitrary: pre w)
  case Nil
  then show ?case by simp
next
  case (Cons m mid)
  have "destroy_n ((pre @ [Raw]) @ mid @ post) (length (pre @ [Raw])) (length mid) (record_event EvDestroy w) =
     (None, (pre @ [Raw]) @ replicate (length mid) Raw @ post,
      (record_event EvDestroy w)\<lparr>trace := trace (record_event EvDestroy w) @ replicate (length mid) EvDestroy\<rparr>)"
    using Cons.prems by (intro Cons.IH) simp
  then show ?case
    using Cons.prems by (simp add: destroy_at_def record_event_def replicate_app_Cons_same)
qed

lemma uninitialized_copy_n_cells:
  "fault w = None \<Longrightarrow> list_all constructed mid \<Longrightarrow> length hole = length mid \<Longrightarrow>
   uninitialized_copy_n (spre @ mid @ spost) (length spre) (length mid)
       (dpre @ hole @ dpost) (length dpre) w =
     (None, dpre @ mid @ dpost,
      w\<lparr>trace := trace w @ replicate (length mid) EvCopyConstruct\<rparr>)"
proof (induction mid arbitrary: spre dpre hole w)
  case Nil
  then show ?case by simp
next
  case (Cons m mid)
  then obtain h hole' where hole: "hole = h # hole'" "length hole' = length mid"
    by (cases hole) auto
  let ?w = "record_event EvCopyConstruct w"
  have "uninitialized_copy_n ((spre @ [m]) @ mid @ spost) (length (spre @ [m])) (length mid)
       ((dpre @ [m]) @ hole' @ dpost) (length (dpre @ [m])) ?w =
     (None, (dpre @ [m]) @ mid @ dpost,
      ?w\<lparr>trace := trace ?w @ replicate (length mid) EvCopyConstruct\<rparr>)"
    using Cons.prems hole by (intro Cons.IH) simp_all
  then show ?case
    using Cons.prems hole
    by (simp add: copy_construct_at_def record_event_def replicate_app_Cons_same)
qed

lemma move_step_None [simp]: "fault w = None \<Longrightarrow> move_step T w = (True, record_event EvMoveConstruct w)"
  by (simp add: move_step_def)

lemma uninitialized_move_n_cells:
  "fault w = None \<Longrightarrow> list_all constructed mid \<Longrightarrow> length hole = length mid \<Longrightarrow>
   uninitialized_move_n T (spre @ mid @ spost) (length spre) (length mid)
       (dpre @ hole @ dpost) (length dpre) w =
     (None, spre @ replicate (length mid) MovedFrom @ spost, dpre @ mid @ dpost,
      w\<lparr>trace := trace w @ replicate (length mid) EvMoveConstruct\<rparr>)"
proof (induction mid arbitrary: spre dpre hole w)
  case Nil
  then show ?case by simp
next
  case (Cons m mid)
  then obtain h hole' where hole: "hole = h # hole'" "length hole' = length mid"
    by (cases hole) auto
  let ?w = "record_event EvMoveConstruct w"
  have "uninitialized_move_n T ((spre @ [MovedFrom]) @ mid @ spost) (length (spre @ [MovedFrom])) (length mid)
       ((dpre @ [m]) @ hole' @ dpost) (length (dpre @ [m])) ?w =
     (None, (spre @ [MovedFrom]) @ replicate (length mid) MovedFrom @ spost, (dpre @ [m]) @ mid @ dpost,
      ?w\<lparr>trace := trace ?w @ replicate (length mid) EvMoveConstruct\<rparr>)"
    using Cons.prems hole by (intro Cons.IH) simp_all
  then show ?case
    using Cons.prems hole
    by (simp add: move_construct_at_def record_event_def replicate_app_Cons_same)
qed

lemma uninitialized_value_construct_n_cells:
  "fault w = None \<Longrightarrow> length hole = n \<Longrightarrow>
   uninitialized_value_construct_n T (dpre @ hole @ dpost) (length dpre) n w =
     (None, dpre @ replicate n (Obj (default_value T)) @ dpost,
      w\<lparr>trace := trace w @ replicate n EvDefaultConstruct\<rparr>)"
proof (induction n arbitrary: dpre hole w)
  case 0
  then show ?case by simp
next
  case (Suc n)
  then obtain h hole' where hole: "hole = h # hole'" "length hole' = n"
    by (cases hole) auto
  let ?w = "record_event EvDefaultConstruct w"
  let ?d = "Obj (default_value T)"
  have "uninitialized_value_construct_n T ((dpre @ [?d]) @ hole' @ dpost) (length (dpre @ [?d])) n ?w =
     (None, (dpre @ [?d]) @ replicate n ?d @ dpost,
      ?w\<lparr>trace := trace ?w @ replicate n EvDefaultConstruct\<rparr>)"
    using Suc.prems hole by (intro Suc.IH) simp_all
  then show ?case
    using Suc.prems hole
    by (simp add: value_construct_at_def record_event_def replicate_app_Cons_same)
qed

lemma std_copy_cells:
  "fault w = None \<Longrightarrow> list_all constructed mid \<Longrightarrow> list_all constructed target \<Longrightarrow>
   length target = length mid \<Longrightarrow>
   std_copy (spre @ mid @ spost) (length spre) (length mid)
       (dpre @ target @ dpost) (length dpre) w =
     (None, dpre @ mid @ dpost,
      w\<lparr>trace := trace w @ replicate (length mid) EvCopyAssign\<rparr>)"
proof (induction mid arbitrary: spre dpre target w)
  case Nil
  then show ?case by simp
next
  case (Cons m mid)
  then obtain h target' where target: "target = h # target'" "length target' = length mid"
    by (cases target) auto
  let ?w = "record_event EvCopyAssign w"
  have "std_copy ((spre @ [m]) @ mid @ spost) (length (spre @ [m])) (length mid)
       ((dpre @ [m]) @ target' @ dpost) (length (dpre @ [m])) ?w =
     (None, (dpre @ [m]) @ mid @ dpost,
      ?w\<lparr>trace := trace ?w @ replicate (length mid) EvCopyAssign\<rparr>)"
    using Cons.prems target by (intro Cons.IH) simp_all
  then show ?case
    using Cons.prems target
    by (simp add: copy_assign_at_def record_event_def replicate_app_Cons_same)
qed

lemma std_move_cells:
  "fault w = None \<Longrightarrow> list_all constructed mid \<Longrightarrow> constructed t \<Longrightarrow>
   std_move (pre @ t # mid @ post) (Suc (length pre)) (length mid) (length pre) w =
     (None, pre @ mid @ (if mid = [] then t else MovedFrom) # post,
      w\<lparr>trace := trace w @ replicate (length mid) EvMoveAssign\<rparr>)"
proof (induction mid arbitrary: pre t w)
  case Nil
  then show ?case by simp
next
  case (Cons m mid)
  let ?w = "record_event EvMoveAssign w"
  have step: "move_assign_at (pre @ t # (m # mid) @ post) (Suc (length pre)) (length pre) w =
     (None, (pre @ [m]) @ MovedFrom # mid @ post, ?w)"
    using Cons.prems
    by (simp add: move_assign_at_def nth_append list_update_append)
  have "std_move ((pre @ [m]) @ MovedFrom # mid @ post) (Suc (length (pre @ [m]))) (length mid) (length (pre @ [m])) ?w =
     (None, (pre @ [m]) @ mid @ (if mid = [] then MovedFrom else MovedFrom) # post,
      ?w\<lparr>trace := trace ?w @ replicate (length mid) EvMoveAssign\<rparr>)"
    using Cons.prems by (intro Cons.IH) simp_all
  then show ?case
    using step
    by (simp add: record_event_def replicate_app_Cons_same)
qed

lemma std_move_backward_cells:
  "fault w = None \<Longrightarrow> list_all constructed mid \<Longrightarrow> constructed t \<Longrightarrow>
   std_move_backward (pre @ mid @ t # post) (length pre) (length mid) (Suc (length pre + length mid)) w =
     (None, pre @ (if mid = [] then t else MovedFrom) # mid @ post,
      w\<lparr>trace := trace w @ replicate (length mid) EvMoveAssign\<rparr>)"
proof (induction mid arbitrary: t post w rule: rev_induct)
  case Nil
  then show ?case by simp
next
  case (snoc m mid)
  let ?w = "record_event EvMoveAssign w"
  have step: "move_assign_at (pre @ (mid @ [m]) @ t # post) (length pre + length mid) (Suc (length pre + length mid)) w =
     (None, pre @ mid @ MovedFrom # m # post, ?w)"
    using snoc.prems
    by (simp add: move_assign_at_def nth_append list_update_append)
  have "std_move_backward (pre @ mid @ MovedFrom # (m # post)) (length pre) (length mid) (Suc (length pre + length mid)) ?w =
     (None, pre @ (if mid = [] then MovedFrom else MovedFrom) # mid @ (m # post),
      ?w\<lparr>trace := trace ?w @ replicate (length mid) EvMoveAssign\<rparr>)"
    using snoc.prems by (intro snoc.IH) simp_all
  then show ?case
    using step
    by (simp add: record_event_def replicate_app_Cons_same)
qed

section \<open>Effects of the vector operations on well-formed vectors\<close>

lemma Vec_conv:
  assumes "well_formed v"
  shows "v = Vec (elems v) (capacity (data v))"
proof (cases "buffer (data v)")
  case Null
  with assms have "capacity (data v) = 0" "size_v v = 0"
    by (simp_all add: well_formed_def)
  with Null show ?thesis
    by (intro Vector.equality RawMemory.equality) (simp_all add: Vec_def elems_def)
next
  case (Block b)
  with assms have b: "length b = capacity (data v)" "size_v v \<le> length b" "b \<noteq> []"
    and objs: "list_all is_Obj (take (size_v v) b)"
    and raws: "list_all (\<lambda>s. s = Raw) (drop (size_v v) b)"
    by (simp_all add: well_formed_def)
  have "map Obj (map value_of (take (size_v v) b)) = take (size_v v) b"
    using objs by (simp add: list_all_iff map_idI)
  moreover have "drop (size_v v) b = replicate (length b - size_v v) Raw"
    using raws by (intro replicate_eqI) (simp_all add: list_all_iff)
  moreover have "take (size_v v) b @ drop (size_v v) b = b"
    by simp
  ultimately have "map Obj (elems v) @ replicate (capacity (data v) - length (elems v)) Raw = b"
    using Block b by (simp add: elems_def min_absorb2 del: append_take_drop_id)
  moreover have "0 < capacity (data v)"
    using b by (cases b) auto
  ultimately show ?thesis
    using Block b
    by (intro Vector.equality RawMemory.equality) (simp_all add: Vec_def elems_def min_absorb2)
next
  case Dangling
  with assms show ?thesis by (simp add: well_formed_def)
qed

lemma length_elems: "well_formed v \<Longrightarrow> length (elems v) = size_v v"
  by (auto simp: well_formed_def elems_def split: ptr.splits)

lemma get_cells_Vec:
  "length xs \<le> c \<Longrightarrow> get_cells (data (Vec xs c)) = map Obj xs @ replicate (c - length xs) Raw"
  by (auto simp: get_cells_def Vec_def)

lemma get_cells_Block [simp]: "get_cells \<lparr>buffer = Block b, capacity = n\<rparr> = b"
  by (simp add: get_cells_def)

lemma put_cells_Block [simp]:
  "put_cells \<lparr>buffer = Block b, capacity = n\<rparr> b' = \<lparr>buffer = Block b', capacity = n\<rparr>"
  by (simp add: put_cells_def)

lemma filter_constructed_Raw [simp]: "filter constructed (replicate n Raw) = []"
  by (induction n) simp_all

lemma RawMemory_new_ok:
  "fault w = None \<Longrightarrow> 0 < n \<Longrightarrow>
   RawMemory_new n w = (Inr \<lparr>buffer = Block (replicate n Raw), capacity = n\<rparr>, record_event (EvAllocate n) w)"
  by (simp add: RawMemory_new_def Allocate_def)

lemma move_or_copy_n_cells:
  assumes "fault w = None" "length hole = length ys"
  shows "move_or_copy_n T (spre @ map Obj ys @ spost) (length spre) (length ys)
           (dpre @ hole @ dpost) (length dpre) w =
         (None,
          spre @ (if is_nothrow_move_constructible T \<or> \<not> is_copy_constructible T
                  then replicate (length ys) MovedFrom else map Obj ys) @ spost,
          dpre @ map Obj ys @ dpost,
          w\<lparr>trace := trace w @ replicate (length ys)
                (if is_nothrow_move_constructible T \<or> \<not> is_copy_constructible T
                 then EvMoveConstruct else EvCopyConstruct)\<rparr>)"
proof -
  have c: "list_all constructed (map Obj ys)"
    by (simp add: list_all_iff)
  show ?thesis
    using uninitialized_move_n_cells [OF assms(1) c, of hole T spre spost dpre dpost]
      uninitialized_copy_n_cells [OF assms(1) c, of hole spre spost dpre dpost] assms(2)
    by (simp add: move_or_copy_n_def)
qed

lemma Reserve_Vec:
  assumes "length xs \<le> c" "fault w = None" "c < n"
  shows "Reserve T n (Vec xs c) w =
    (None, Vec xs n,
     w\<lparr>trace := trace w @ EvAllocate n #
         replicate (length xs) (if is_nothrow_move_constructible T \<or> \<not> is_copy_constructible T
                                then EvMoveConstruct else EvCopyConstruct) @
         replicate (length xs) EvDestroy @ (if c = 0 then [] else [EvDeallocate 0])\<rparr>)"
proof -
  let ?mv = "is_nothrow_move_constructible T \<or> \<not> is_copy_constructible T"
  let ?w1 = "record_event (EvAllocate n) w"
  let ?left = "if ?mv then replicate (length xs) MovedFrom else map Obj xs"
  have n: "0 < n" "length xs \<le> n" using assms by simp_all
  have new: "replicate n Raw = replicate (length xs) Raw @ replicate (n - length xs) (Raw :: 'a slot)"
    using n by (simp add: replicate_add [symmetric])
  have transfer: "move_or_copy_n T (map Obj xs @ replicate (c - length xs) Raw) 0 (length xs)
      (replicate n Raw) 0 ?w1 =
      (None, ?left @ replicate (c - length xs) Raw, map Obj xs @ replicate (n - length xs) Raw,
       ?w1\<lparr>trace := trace ?w1 @ replicate (length xs) (if ?mv then EvMoveConstruct else EvCopyConstruct)\<rparr>)"
    using move_or_copy_n_cells [of ?w1 "replicate (length xs) Raw" xs T "[]" "replicate (c - length xs) Raw" "[]" "replicate (n - length xs) Raw"]
      assms(2) new by simp
  have left: "list_all constructed ?left" "length ?left = length xs"
    by (simp_all add: list_all_iff)
  from destroy_n_cells [OF left(1), of "[]" "replicate (c - length xs) Raw"] left(2)
  have destroy: "\<And>w. destroy_n (?left @ replicate (c - length xs) Raw) 0 (length xs) w =
      (None, replicate (length xs) Raw @ replicate (c - length xs) Raw,
       w\<lparr>trace := trace w @ replicate (length xs) EvDestroy\<rparr>)"
    by simp
  show ?thesis
  proof (cases "c = 0")
    case True
    with assms have "xs = []" by simp
    with True assms n show ?thesis
      by (simp add: Reserve_def RawMemory_new_ok Vec_def get_cells_def put_cells_def
          move_or_copy_n_def RawMemory_Swap_def RawMemory_destroy_def Deallocate_def record_event_def)
  next
    case False
    with assms n show ?thesis
      unfolding Reserve_def
      by (simp add: RawMemory_new_ok get_cells_Vec transfer destroy)
        (simp add: Vec_def put_cells_def RawMemory_Swap_def RawMemory_destroy_def Deallocate_def
          record_event_def)
  qed
qed

lemma replicate_update:
  assumes "k < m"
  shows "(replicate m x)[k := y] = replicate k x @ y # replicate (m - Suc k) x"
proof -
  have "m = k + Suc (m - Suc k)"
    using assms by simp
  then have "replicate m x = replicate k x @ x # replicate (m - Suc k) x"
    by (metis replicate_Suc replicate_add)
  then show ?thesis
    by (simp add: list_update_append)
qed

lemma data_Vec_Block:
  "0 < c \<Longrightarrow> data (Vec xs c) = \<lparr>buffer = Block (map Obj xs @ replicate (c - length xs) Raw), capacity = c\<rparr>"
  by (simp add: Vec_def)

lemma ShrinkToFit_Vec:
  assumes "length xs < c" "xs \<noteq> []" "fault w = None"
  shows "ShrinkToFit T (Vec xs c) w =
    (None, Vec xs (length xs),
     w\<lparr>trace := trace w @ EvAllocate (length xs) # replicate (length xs) EvMoveConstruct @
        [EvDeallocate (length xs)]\<rparr>)"
proof -
  let ?n = "length xs"
  let ?w1 = "record_event (EvAllocate ?n) w"
  have n: "0 < ?n" "0 < c" using assms by simp_all
  have c: "list_all constructed (map Obj xs)"
    by (simp add: list_all_iff)
  have transfer: "uninitialized_move_n T (map Obj xs @ replicate (c - ?n) Raw) 0 ?n
      (replicate ?n Raw) 0 ?w1 =
      (None, replicate ?n MovedFrom @ replicate (c - ?n) Raw, map Obj xs,
       ?w1\<lparr>trace := trace ?w1 @ replicate ?n EvMoveConstruct\<rparr>)"
    using uninitialized_move_n_cells [OF _ c, of ?w1 "replicate ?n Raw" T "[]" "replicate (c - ?n) Raw" "[]" "[]"]
      assms(3) by simp
  have count: "length (filter constructed (replicate ?n MovedFrom @ replicate (c - ?n) Raw)) = ?n"
    by (simp add: filter_replicate)
  from assms n show ?thesis
    unfolding ShrinkToFit_def
    by (simp add: RawMemory_new_ok data_Vec_Block transfer)
      (simp add: Vec_def RawMemory_Swap_def RawMemory_destroy_def Deallocate_def record_event_def
        filter_replicate)
qed

lemma ShrinkToFit_empty_Vec:
  assumes "0 < c"
  shows "ShrinkToFit T (Vec [] c) w = (None, Vec [] 0, w\<lparr>trace := trace w @ [EvLeak]\<rparr>)"
  using assms
  by (simp add: ShrinkToFit_def Vec_def RawMemory_move_assign_def RawMemory_default_def
      RawMemory_destroy_def Deallocate_def record_event_def)

lemma PopBack_Vec:
  assumes "length xs \<le> c" "xs \<noteq> []"
  shows "PopBack (Vec xs c) w = (None, Vec (butlast xs) c, w\<lparr>trace := trace w @ [EvDestroy]\<rparr>)"
proof -
  obtain ys y where xs: "xs = ys @ [y]"
    using assms(2) by (cases xs rule: rev_cases) auto
  have c: "0 < c" "length ys < c" using assms xs by simp_all
  have d: "destroy_at (map Obj ys @ Obj y # replicate (c - Suc (length ys)) Raw) (length ys) w =
      (None, map Obj ys @ Raw # replicate (c - Suc (length ys)) Raw,
       w\<lparr>trace := trace w @ [EvDestroy]\<rparr>)"
    by (simp add: destroy_at_def nth_append list_update_append record_event_def)
  have r: "Raw # replicate (c - Suc (length ys)) Raw = replicate (c - length ys) (Raw :: 'a slot)"
    using c by (metis Suc_diff_Suc replicate_Suc)
  show ?thesis
    using c d unfolding PopBack_def xs
    by (simp add: data_Vec_Block) (simp add: Vec_def set_cells_def r)
qed

section \<open>Move construction and move assignment\<close>

text \<open>
  C1, as stated, fails for move assignment: after \<^verbatim>\<open>a = std::move(b)\<close> with
  \<open>a = {1}\<close> and \<open>b = {2}\<close>, the source \<open>b\<close> is not empty: it has size 1 and
  capacity 1 and holds \<open>a\<close>'s former element.
\<close>

theorem move_assign_source_not_empty:
  "Size (assign_move 0 1 (no_objects(0 := Vec [1 :: int] 1, 1 := Vec [2] 1)) 1) = 1 \<and>
   Capacity (assign_move 0 1 (no_objects(0 := Vec [1 :: int] 1, 1 := Vec [2] 1)) 1) = 1 \<and>
   live (assign_move 0 1 (no_objects(0 := Vec [1 :: int] 1, 1 := Vec [2] 1)) 1) = Inr [1]"
  by (simp add: assign_move_def Swap_def RawMemory_Swap_def Size_def Capacity_def Vec_def live_def)

text \<open>
  C1, amended. Move construction leaves the source default-constructed (no buffer,
  capacity 0, size 0) and gives the new vector the source's buffer, capacity and size.
  Move assignment is \<^verbatim>\<open>Swap\<close>: the destination gets the source's buffer, capacity and
  size, and the source gets the destination's former ones (so it is empty only if the
  destination was). Neither has access to the allocator or to an element operation: the
  cells are carried over as they are.
\<close>

theorem move_transfers_storage:
  "Vector_move v = (v, Vector_default) \<and>
   assign_move this other mem this = mem other \<and>
   assign_move this other mem other = mem this"
  by (simp add: Vector_move_def RawMemory_move_def Vector_default_def RawMemory_default_def
      assign_move_def Swap_def RawMemory_Swap_def)

section \<open>Reallocation and the old elements\<close>

text \<open>
  C3. The claim: every reallocating operation destroys the elements of the old buffer
  before the old block is released. \<^verbatim>\<open>Reserve\<close> does (the block it releases holds no
  constructed object), \<^verbatim>\<open>ShrinkToFit\<close> does not: on \<open>{1, 2}\<close> with capacity 4 it
  move-constructs the two elements into the new block, calls no destructor, and releases
  the old block with the two moved-from objects still constructed.
\<close>

theorem ShrinkToFit_skips_destruction:
  "ShrinkToFit int_type (Vec [1, 2] 4) no_faults =
     (None, Vec [1, 2] 2,
      no_faults\<lparr>trace := [EvAllocate 2, EvMoveConstruct, EvMoveConstruct, EvDeallocate 2]\<rparr>) \<and>
   Reserve int_type 8 (Vec [1, 2] 4) no_faults =
     (None, Vec [1, 2] 8,
      no_faults\<lparr>trace := [EvAllocate 8, EvMoveConstruct, EvMoveConstruct, EvDestroy, EvDestroy,
                            EvDeallocate 0]\<rparr>)"
  using ShrinkToFit_Vec [of "[1, 2]" 4 no_faults int_type]
    Reserve_Vec [of "[1, 2]" 4 no_faults 8 int_type]
  by (simp add: numeral_2_eq_2 no_faults_def int_type_def)

section \<open>Reserve\<close>



section \<open>PushBack on well-formed vectors\<close>

lemma construct_at_cells:
  "fault w = None \<Longrightarrow>
   construct_at (pre @ h # post) (length pre) x w = (None, pre @ Obj x # post, record_event EvConstruct w)"
  by (simp add: construct_at_def)

lemma PushBack_in_place_Vec:
  assumes "length xs < c" "fault w = None"
  shows "PushBack T x (Vec xs c) w =
    (None, Vec (xs @ [x]) c, w\<lparr>trace := trace w @ [EvConstruct]\<rparr>)"
proof -
  have r: "replicate (c - length xs) Raw = Raw # replicate (c - Suc (length xs)) (Raw :: 'a slot)"
    using assms(1) by (metis Suc_diff_Suc replicate_Suc)
  have "construct_at (map Obj xs @ Raw # replicate (c - Suc (length xs)) Raw) (length (map Obj xs)) x w =
      (None, map Obj xs @ Obj x # replicate (c - Suc (length xs)) Raw, record_event EvConstruct w)"
    using assms(2) by (rule construct_at_cells)
  then show ?thesis
    using assms unfolding PushBack_def
    by (simp add: data_Vec_Block r) (simp add: Vec_def set_cells_def record_event_def)
qed

lemma PushBack_grow_Vec:
  assumes "length xs = c" "fault w = None"
  shows "PushBack T x (Vec xs c) w =
    (None, Vec (xs @ [x]) (if c = 0 then 1 else c * 2),
     w\<lparr>trace := trace w @ EvAllocate (if c = 0 then 1 else c * 2) # EvConstruct #
         replicate c (if is_nothrow_move_constructible T \<or> \<not> is_copy_constructible T
                      then EvMoveConstruct else EvCopyConstruct) @
         replicate c EvDestroy @ (if c = 0 then [] else [EvDeallocate 0])\<rparr>)"
proof (cases "c = 0")
  case True
  with assms have "xs = []" by simp
  with True assms show ?thesis
    by (simp add: PushBack_def RawMemory_new_ok Vec_def get_cells_def put_cells_def
        construct_at_def move_or_copy_n_def RawMemory_Swap_def RawMemory_destroy_def
        Deallocate_def record_event_def)
next
  case False
  let ?mv = "is_nothrow_move_constructible T \<or> \<not> is_copy_constructible T"
  let ?n = "c * 2"
  let ?w1 = "record_event (EvAllocate ?n) w"
  let ?w2 = "record_event EvConstruct ?w1"
  let ?left = "if ?mv then replicate c MovedFrom else map Obj xs"
  define rest where "rest = replicate (?n - Suc c) (Raw :: 'a slot)"
  have "?n = c + Suc (?n - Suc c)"
    using False by simp
  then have "replicate ?n Raw = replicate c Raw @ Raw # replicate (?n - Suc c) (Raw :: 'a slot)"
    by (metis replicate_Suc replicate_add)
  then have new: "replicate ?n Raw = replicate c Raw @ Raw # rest"
    by (simp add: rest_def)
  have construct: "construct_at (replicate ?n Raw) c x ?w1 =
      (None, replicate c Raw @ Obj x # rest, ?w2)"
    using construct_at_cells [of ?w1 "replicate c Raw" Raw rest x] assms(2)
    unfolding new by simp
  have transfer: "move_or_copy_n T (map Obj xs) 0 c (replicate c Raw @ Obj x # rest) 0 ?w2 =
      (None, ?left, map Obj xs @ Obj x # rest,
       ?w2\<lparr>trace := trace ?w2 @ replicate c (if ?mv then EvMoveConstruct else EvCopyConstruct)\<rparr>)"
    using move_or_copy_n_cells [of ?w2 "replicate c Raw" xs T "[]" "[]" "[]" "Obj x # rest"]
      assms by simp
  have left: "list_all constructed ?left" "length ?left = c"
    using assms(1) by (simp_all add: list_all_iff)
  from destroy_n_cells [OF left(1), of "[]" "[]"] left(2)
  have destroy: "\<And>w. destroy_n ?left 0 c w =
      (None, replicate c Raw, w\<lparr>trace := trace w @ replicate c EvDestroy\<rparr>)"
    by simp
  have "PushBack T x (Vec xs c) w =
      (None, \<lparr>data = \<lparr>buffer = Block (map Obj xs @ Obj x # rest), capacity = ?n\<rparr>, size_v = Suc c\<rparr>,
       w\<lparr>trace := trace w @ EvAllocate ?n # EvConstruct #
         replicate c (if ?mv then EvMoveConstruct else EvCopyConstruct) @
         replicate c EvDestroy @ [EvDeallocate 0]\<rparr>)"
    using assms False unfolding PushBack_def
    by (simp add: RawMemory_new_ok data_Vec_Block construct transfer destroy)
      (simp add: RawMemory_Swap_def RawMemory_destroy_def Deallocate_def record_event_def)
  with assms False show ?thesis
    by (simp add: Vec_def rest_def)
qed

section \<open>Resize\<close>






section \<open>Copy construction, destruction and copy assignment\<close>

lemma Vector_copy_Vec:
  assumes "length ys \<le> d" "fault w = None"
  shows "Vector_copy (Vec ys d) w =
    (Inr (Vec ys (length ys)),
     w\<lparr>trace := trace w @ (if ys = [] then [] else [EvAllocate (length ys)]) @
         replicate (length ys) EvCopyConstruct\<rparr>)"
proof (cases "ys = []")
  case True
  then show ?thesis
    by (simp add: Vector_copy_def RawMemory_new_def Allocate_def Vec_def put_cells_def get_cells_def)
next
  case False
  let ?w1 = "record_event (EvAllocate (length ys)) w"
  have c: "list_all constructed (map Obj ys)"
    by (simp add: list_all_iff)
  have copy: "uninitialized_copy_n (map Obj ys @ replicate (d - length ys) Raw) 0 (length ys)
      (replicate (length ys) Raw) 0 ?w1 =
      (None, map Obj ys, ?w1\<lparr>trace := trace ?w1 @ replicate (length ys) EvCopyConstruct\<rparr>)"
    using uninitialized_copy_n_cells [OF _ c, of ?w1 "replicate (length ys) Raw" "[]" "replicate (d - length ys) Raw" "[]" "[]"]
      assms(2) by simp
  from False assms show ?thesis
    unfolding Vector_copy_def
    by (simp add: RawMemory_new_ok get_cells_Vec copy) (simp add: Vec_def record_event_def)
qed

lemma Vector_destroy_Vec:
  assumes "length xs \<le> c"
  shows "Vector_destroy (Vec xs c) w =
    (None, w\<lparr>trace := trace w @ replicate (length xs) EvDestroy @
                (if c = 0 then [] else [EvDeallocate 0])\<rparr>)"
proof (cases "c = 0")
  case True
  with assms show ?thesis
    by (simp add: Vector_destroy_def Vec_def get_cells_def put_cells_def RawMemory_destroy_def
        Deallocate_def)
next
  case False
  have "list_all constructed (map Obj xs)"
    by (simp add: list_all_iff)
  from destroy_n_cells [OF this, of "[]" "replicate (c - length xs) Raw" w]
  have "destroy_n (map Obj xs @ replicate (c - length xs) Raw) 0 (length xs) w =
      (None, replicate (length xs) Raw @ replicate (c - length xs) Raw,
       w\<lparr>trace := trace w @ replicate (length xs) EvDestroy\<rparr>)"
    by simp
  with False assms show ?thesis
    unfolding Vector_destroy_def
    by (simp add: data_Vec_Block) (simp add: RawMemory_destroy_def Deallocate_def record_event_def)
qed

lemma copy_assign_from_Vec:
  assumes "length xs \<le> c" "length ys \<le> d" "fault w = None"
  shows "\<exists>w'. copy_assign_from (Vec ys d) (Vec xs c) w =
      (None, Vec ys (if length ys \<le> c then c else length ys), w') \<and>
      (length ys \<le> c \<longrightarrow>
         trace w' = trace w @ replicate (min (length xs) (length ys)) EvCopyAssign @
           replicate (length ys - length xs) EvCopyConstruct @
           replicate (length xs - length ys) EvDestroy)"
proof (cases "length ys \<le> c")
  case fits: True
  show ?thesis
  proof (cases "c = 0")
    case True
    with fits assms show ?thesis
      by (simp add: copy_assign_from_def Vec_def get_cells_def set_cells_def put_cells_def)
  next
    case False
    have split_xs: "map Obj xs = map Obj (take (length ys) xs) @ map Obj (drop (length ys) xs)"
      by (simp flip: map_append)
    have split_ys: "map Obj ys = map Obj (take (length xs) ys) @ map Obj (drop (length xs) ys)"
      by (simp flip: map_append)
    show ?thesis
    proof (cases "length xs \<le> length ys")
      case True
      let ?k = "length ys - length xs"
      let ?w1 = "w\<lparr>trace := trace w @ replicate (length xs) EvCopyAssign\<rparr>"
      define hole where "hole = replicate ?k (Raw :: 'a slot)"
      define rest where "rest = replicate (c - length ys) (Raw :: 'a slot)"
      define ysl where "ysl = map Obj (take (length xs) ys)"
      define ysr where "ysr = map Obj (drop (length xs) ys)"
      define srest where "srest = replicate (d - length ys) (Raw :: 'a slot)"
      have lens: "length ysl = length xs" "length ysr = ?k" "length hole = ?k"
        using True by (simp_all add: ysl_def ysr_def hole_def)
      have cons: "list_all constructed ysl" "list_all constructed ysr" "list_all constructed (map Obj xs)"
        by (simp_all add: list_all_iff ysl_def ysr_def)
      have raw: "replicate (c - length xs) Raw = hole @ rest"
        using True fits by (simp add: hole_def rest_def flip: replicate_add)
      have src: "map Obj ys = ysl @ ysr"
        using split_ys by (simp add: ysl_def ysr_def)
      have copy: "std_copy (ysl @ ysr @ srest) 0 (length xs) (map Obj xs @ hole @ rest) 0 w =
          (None, ysl @ hole @ rest, ?w1)"
        using std_copy_cells [OF assms(3) cons(1) cons(3), of "[]" "ysr @ srest" "[]" "hole @ rest"] lens
        by simp
      have "fault ?w1 = None" using assms(3) by simp
      from uninitialized_copy_n_cells [OF this cons(2), of hole ysl srest ysl rest] lens
      have fill: "uninitialized_copy_n (ysl @ ysr @ srest) (length xs) ?k (ysl @ hole @ rest) (length xs) ?w1 =
          (None, ysl @ ysr @ rest, ?w1\<lparr>trace := trace ?w1 @ replicate ?k EvCopyConstruct\<rparr>)"
        by simp
      have "copy_assign_from (Vec ys d) (Vec xs c) w =
          (None, (set_cells (Vec xs c) (ysl @ ysr @ rest))\<lparr>size_v := length ys\<rparr>,
           ?w1\<lparr>trace := trace ?w1 @ replicate ?k EvCopyConstruct\<rparr>)"
        using fits True False assms unfolding copy_assign_from_def
        by (simp add: get_cells_Vec raw src copy fill flip: srest_def)
      moreover have "(set_cells (Vec xs c) (ysl @ ysr @ rest))\<lparr>size_v := length ys\<rparr> = Vec ys c"
        using False fits by (simp add: set_cells_def Vec_def put_cells_def rest_def flip: src)
      ultimately show ?thesis
        using fits True by (simp add: min_absorb1)
    next
      case shorter: False
      let ?k = "length xs - length ys"
      let ?w1 = "w\<lparr>trace := trace w @ replicate (length ys) EvCopyAssign\<rparr>"
      define xsl where "xsl = map Obj (take (length ys) xs)"
      define xsr where "xsr = map Obj (drop (length ys) xs)"
      define rest where "rest = replicate (c - length xs) (Raw :: 'a slot)"
      define srest where "srest = replicate (d - length ys) (Raw :: 'a slot)"
      have lens: "length xsl = length ys" "length xsr = ?k"
        using shorter by (simp_all add: xsl_def xsr_def)
      have cons: "list_all constructed xsl" "list_all constructed xsr" "list_all constructed (map Obj ys)"
        by (simp_all add: list_all_iff xsl_def xsr_def)
      have dst: "map Obj xs = xsl @ xsr"
        using split_xs by (simp add: xsl_def xsr_def)
      have copy: "std_copy (map Obj ys @ srest) 0 (length ys) (xsl @ xsr @ rest) 0 w =
          (None, map Obj ys @ xsr @ rest, ?w1)"
        using std_copy_cells [OF assms(3) cons(3) cons(1), of "[]" srest "[]" "xsr @ rest"] lens
        by simp
      from destroy_n_cells [OF cons(2), of "map Obj ys" rest ?w1] lens
      have destroy: "destroy_n (map Obj ys @ xsr @ rest) (length ys) ?k ?w1 =
          (None, map Obj ys @ replicate ?k Raw @ rest,
           ?w1\<lparr>trace := trace ?w1 @ replicate ?k EvDestroy\<rparr>)"
        by simp
      have "copy_assign_from (Vec ys d) (Vec xs c) w =
          (None, (set_cells (Vec xs c) (map Obj ys @ replicate ?k Raw @ rest))\<lparr>size_v := length ys\<rparr>,
           ?w1\<lparr>trace := trace ?w1 @ replicate ?k EvDestroy\<rparr>)"
        using fits shorter False assms unfolding copy_assign_from_def
        by (simp add: get_cells_Vec dst copy destroy flip: rest_def srest_def)
      moreover have "replicate ?k Raw @ rest = replicate (c - length ys) Raw"
        using shorter assms(1) by (simp add: rest_def flip: replicate_add)
      then have "(set_cells (Vec xs c) (map Obj ys @ replicate ?k Raw @ rest))\<lparr>size_v := length ys\<rparr> = Vec ys c"
        using False by (simp add: set_cells_def Vec_def put_cells_def)
      ultimately show ?thesis
        using fits shorter by (simp add: min_absorb2)
    qed
  qed
next
  case False
  let ?w1 = "w\<lparr>trace := trace w @ (if ys = [] then [] else [EvAllocate (length ys)]) @
         replicate (length ys) EvCopyConstruct\<rparr>"
  have "fault ?w1 = None" using assms(3) by simp
  with False assms show ?thesis
    unfolding copy_assign_from_def
    by (simp add: Vector_copy_Vec Swap_def RawMemory_Swap_def)
      (simp add: Vector_destroy_Vec [of xs c, unfolded Vec_def] Vec_def)
qed

text \<open>
  C10. For two vectors \<open>a\<close> and \<open>b\<close> (objects at the addresses \<open>a\<close> and \<open>b\<close>) that
  satisfy the class invariant, when nothing throws: after \<^verbatim>\<open>a = b\<close> the vector \<open>a\<close> has
  the size and the elements of \<open>b\<close>, \<^verbatim>\<open>a == b\<close> is true and \<open>b\<close> is unchanged;
  self-assignment changes neither the memory nor the world; and when \<open>b.Size()\<close> was at
  most \<open>a.Capacity()\<close> the capacity of \<open>a\<close> is unchanged and the only events are copy
  assignments, copy constructions and destructions: nothing is allocated or released.
\<close>

theorem copy_assignment_effect:
  assumes "well_formed (mem a)" and "well_formed (mem b)" and "fault w = None"
  shows "case assign_copy a b mem w of
           (e, mem', w') \<Rightarrow>
             e = None \<and> well_formed (mem' a) \<and>
             Size (mem' a) = Size (mem b) \<and> elems (mem' a) = elems (mem b) \<and>
             operator_eq (mem' a) (mem' b) = Inr True \<and>
             mem' b = mem b \<and>
             (a = b \<longrightarrow> mem' = mem \<and> w' = w) \<and>
             (Size (mem b) \<le> Capacity (mem a) \<longrightarrow>
                Capacity (mem' a) = Capacity (mem a) \<and>
                (a \<noteq> b \<longrightarrow>
                   trace w' = trace w @
                     replicate (min (Size (mem a)) (Size (mem b))) EvCopyAssign @
                     replicate (Size (mem b) - Size (mem a)) EvCopyConstruct @
                     replicate (Size (mem a) - Size (mem b)) EvDestroy))"
proof -
  define xs where "xs = elems (mem a)"
  define c where "c = capacity (data (mem a))"
  define ys where "ys = elems (mem b)"
  define d where "d = capacity (data (mem b))"
  have va: "mem a = Vec xs c" and la: "length xs \<le> c"
    using assms(1) Vec_conv [of "mem a"] length_elems [of "mem a"]
    by (simp_all add: xs_def c_def well_formed_def)
  have vb: "mem b = Vec ys d" and lb: "length ys \<le> d"
    using assms(2) Vec_conv [of "mem b"] length_elems [of "mem b"]
    by (simp_all add: ys_def d_def well_formed_def)
  show ?thesis
  proof (cases "a = b")
    case True
    with lb show ?thesis
      by (simp add: assign_copy_def vb Size_def Capacity_def well_formed_Vec operator_eq_Vec)
  next
    case False
    from copy_assign_from_Vec [OF la lb assms(3)] obtain w' where
      run: "copy_assign_from (Vec ys d) (Vec xs c) w =
          (None, Vec ys (if length ys \<le> c then c else length ys), w')"
      and events: "length ys \<le> c \<longrightarrow>
         trace w' = trace w @ replicate (min (length xs) (length ys)) EvCopyAssign @
           replicate (length ys - length xs) EvCopyConstruct @
           replicate (length xs - length ys) EvDestroy"
      by blast
    have cap: "length ys \<le> (if length ys \<le> c then c else length ys)"
      by simp
    from False run events la lb cap show ?thesis
      by (simp add: assign_copy_def va vb Size_def Capacity_def well_formed_Vec operator_eq_Vec)
  qed
qed

theorem copy_assignment_effect_witness:
  "well_formed ((no_objects(0 := Vec [1, 2, 3 :: int] 4, 1 := Vec [7, 8 :: int] 2)) 0) \<and>
   well_formed ((no_objects(0 := Vec [1, 2, 3 :: int] 4, 1 := Vec [7, 8 :: int] 2)) 1) \<and>
   fault no_faults = None \<and>
   (case assign_copy 0 1 (no_objects(0 := Vec [1, 2, 3 :: int] 4, 1 := Vec [7, 8 :: int] 2)) no_faults of
      (e, mem', w') \<Rightarrow>
        e = None \<and> well_formed (mem' 0) \<and> Size (mem' 0) = 2 \<and> elems (mem' 0) = [7, 8] \<and>
        operator_eq (mem' 0) (mem' 1) = Inr True \<and> mem' 1 = Vec [7, 8] 2 \<and>
        Capacity (mem' 0) = 4 \<and>
        trace w' = [EvCopyAssign, EvCopyAssign, EvDestroy])"
proof -
  let ?mem = "no_objects(0 := Vec [1, 2, 3 :: int] 4, 1 := Vec [7, 8 :: int] 2)"
  have h1: "well_formed (?mem 0)"
    by (simp add: well_formed_Vec)
  have h2: "well_formed (?mem 1)"
    by (simp add: well_formed_Vec)
  have h3: "fault no_faults = None"
    by (simp add: no_faults_def)
  obtain e mem' w' where run: "assign_copy 0 1 ?mem no_faults = (e, mem', w')"
    by (rule prod_cases3)
  from copy_assignment_effect [OF h1 h2 h3] have
    "e = None \<and> well_formed (mem' 0) \<and> Size (mem' 0) = Size (?mem 1) \<and>
     elems (mem' 0) = elems (?mem 1) \<and> operator_eq (mem' 0) (mem' 1) = Inr True \<and>
     mem' 1 = ?mem 1 \<and> Capacity (mem' 0) = Capacity (?mem 0) \<and>
     trace w' = trace no_faults @
       replicate (min (Size (?mem 0)) (Size (?mem 1))) EvCopyAssign @
       replicate (Size (?mem 1) - Size (?mem 0)) EvCopyConstruct @
       replicate (Size (?mem 0) - Size (?mem 1)) EvDestroy"
    unfolding run by (auto simp: Size_def Capacity_def)
  then have "e = None \<and> well_formed (mem' 0) \<and> Size (mem' 0) = 2 \<and> elems (mem' 0) = [7, 8] \<and>
     operator_eq (mem' 0) (mem' 1) = Inr True \<and> mem' 1 = Vec [7, 8] 2 \<and>
     Capacity (mem' 0) = 4 \<and> trace w' = [EvCopyAssign, EvCopyAssign, EvDestroy]"
    by (auto simp: Size_def Capacity_def no_faults_def numeral_2_eq_2)
  with h1 h2 h3 show ?thesis
    unfolding run prod.case by blast
qed

section \<open>Emplace, Insert and Erase on well-formed vectors\<close>

lemma to_int_small: "n < 2 ^ 31 \<Longrightarrow> to_int n = int n"
  by (simp add: to_int_def)

lemma Erase_Vec:
  assumes "length (ys @ z # zs) \<le> c" "fault w = None" "length ys < 2 ^ 31"
  shows "Erase (length ys) (Vec (ys @ z # zs) c) w =
    (Inr (length ys), Vec (ys @ zs) c,
     w\<lparr>trace := trace w @ replicate (length zs) EvMoveAssign @ [EvDestroy]\<rparr>)"
proof -
  define rest where "rest = replicate (c - Suc (length ys + length zs)) (Raw :: 'a slot)"
  let ?w1 = "w\<lparr>trace := trace w @ replicate (length zs) EvMoveAssign\<rparr>"
  define lst where "lst = (if zs = [] then Obj z else MovedFrom)"
  have lst: "constructed lst" by (simp add: lst_def)
  have c: "0 < c" using assms(1) by simp
  have cells: "get_cells (data (Vec (ys @ z # zs) c)) = map Obj ys @ Obj z # map Obj zs @ rest"
    using assms(1) by (simp add: get_cells_Vec rest_def)
  have cons: "list_all constructed (map Obj zs)" "constructed (Obj z)"
    by (simp_all add: list_all_iff)
  from std_move_cells [OF assms(2) cons, of "map Obj ys" rest]
  have shift: "std_move (map Obj ys @ Obj z # map Obj zs @ rest) (Suc (length ys)) (length zs) (length ys) w =
      (None, map Obj ys @ map Obj zs @ lst # rest, ?w1)"
    unfolding lst_def by simp
  have destroy: "destroy_at (map Obj ys @ map Obj zs @ lst # rest) (length ys + length zs) ?w1 =
      (None, map Obj ys @ map Obj zs @ Raw # rest, record_event EvDestroy ?w1)"
    using lst by (simp add: destroy_at_def nth_append list_update_append)
  have "Erase (length ys) (Vec (ys @ z # zs) c) w =
      (Inr (length ys),
       (set_cells (Vec (ys @ z # zs) c) (map Obj ys @ map Obj zs @ Raw # rest))
         \<lparr>size_v := length ys + length zs\<rparr>,
       record_event EvDestroy ?w1)"
    using assms unfolding Erase_def
    by (simp add: to_int_small cells shift destroy Let_def)
  moreover have "c - (length ys + length zs) = Suc (c - Suc (length ys + length zs))"
    using assms(1) by simp
  then have "Raw # rest = replicate (c - (length ys + length zs)) Raw"
    unfolding rest_def by simp
  ultimately show ?thesis
    using c by (simp add: set_cells_def Vec_def put_cells_def record_event_def)
qed

lemma Emplace_at_end_Vec:
  assumes "length xs < c" "fault w = None" "length xs < 2 ^ 31"
  shows "Emplace T (length xs) x (Vec xs c) w =
    (Inr (length xs), Vec (xs @ [x]) c, w\<lparr>trace := trace w @ [EvConstruct]\<rparr>)"
proof -
  have "c - length xs = Suc (c - Suc (length xs))"
    using assms(1) by simp
  then have r: "replicate (c - length xs) Raw = Raw # replicate (c - Suc (length xs)) (Raw :: 'a slot)"
    by simp
  have "construct_at (map Obj xs @ Raw # replicate (c - Suc (length xs)) Raw) (length (map Obj xs)) x w =
      (None, map Obj xs @ Obj x # replicate (c - Suc (length xs)) Raw, record_event EvConstruct w)"
    using assms(2) by (rule construct_at_cells)
  then show ?thesis
    using assms unfolding Emplace_def Emplace_in_place_def
    by (simp add: to_int_small data_Vec_Block r Let_def)
      (simp add: Vec_def set_cells_def record_event_def)
qed

lemma Emplace_in_place_Vec:
  assumes "length (ys @ zs @ [z]) < c" "fault w = None" "length ys < 2 ^ 31"
  shows "Emplace T (length ys) x (Vec (ys @ zs @ [z]) c) w =
    (Inr (length ys), Vec (ys @ x # zs @ [z]) c,
     w\<lparr>trace := trace w @ EvConstruct # EvMoveConstruct # replicate (length zs) EvMoveAssign @
        [EvMoveAssign, EvDestroy]\<rparr>)"
proof -
  define rest where "rest = replicate (c - Suc (Suc (length ys + length zs))) (Raw :: 'a slot)"
  let ?w1 = "record_event EvConstruct w"
  let ?w2 = "record_event EvMoveConstruct ?w1"
  let ?w3 = "?w2\<lparr>trace := trace ?w2 @ replicate (length zs) EvMoveAssign\<rparr>"
  let ?w4 = "record_event EvMoveAssign ?w3"
  have c: "0 < c" using assms(1) by simp
  have "c - Suc (length ys + length zs) = Suc (c - Suc (Suc (length ys + length zs)))"
    using assms(1) by simp
  then have "replicate (c - Suc (length ys + length zs)) Raw = Raw # rest"
    unfolding rest_def by simp
  then have cells: "get_cells (data (Vec (ys @ zs @ [z]) c)) =
      map Obj ys @ map Obj zs @ Obj z # Raw # rest"
    using assms(1) by (simp add: get_cells_Vec)
  have f: "fault ?w1 = None" "fault ?w2 = None" "fault ?w3 = None"
    using assms(2) by simp_all
  have first: "move_construct_within T (map Obj ys @ map Obj zs @ Obj z # Raw # rest)
      (length ys + length zs) (Suc (length ys + length zs)) ?w1 =
      (None, map Obj ys @ map Obj zs @ MovedFrom # Obj z # rest, ?w2)"
    using f(1) by (simp add: move_construct_within_def nth_append list_update_append)
  have cons: "list_all constructed (map Obj zs)" "constructed (MovedFrom :: 'a slot)"
    by (simp_all add: list_all_iff)
  from std_move_backward_cells [OF f(2) cons, of "map Obj ys" "Obj z # rest"]
  have shift: "std_move_backward (map Obj ys @ map Obj zs @ MovedFrom # Obj z # rest)
      (length ys) (length zs) (Suc (length ys + length zs)) ?w2 =
      (None, map Obj ys @ MovedFrom # map Obj zs @ Obj z # rest, ?w3)"
    by simp
  have assign: "move_assign_value (map Obj ys @ MovedFrom # map Obj zs @ Obj z # rest) (length ys) x ?w3 =
      (None, map Obj ys @ Obj x # map Obj zs @ Obj z # rest, ?w4)"
    using f(3) by (simp add: move_assign_value_def nth_append list_update_append)
  have "Emplace T (length ys) x (Vec (ys @ zs @ [z]) c) w =
      (Inr (length ys),
       (set_cells (Vec (ys @ zs @ [z]) c) (map Obj ys @ Obj x # map Obj zs @ Obj z # rest))
         \<lparr>size_v := Suc (Suc (length ys + length zs))\<rparr>,
       record_event EvDestroy ?w4)"
    using assms unfolding Emplace_def Emplace_in_place_def
    by (simp add: to_int_small cells first shift assign Let_def)
  then show ?thesis
    using c assms(1) by (simp add: set_cells_def Vec_def put_cells_def record_event_def rest_def)
qed

lemma Emplace_grow_Vec:
  assumes "fault w = None" "length ys < 2 ^ 31" "c = length ys + length zs"
  shows "Emplace T (length ys) x (Vec (ys @ zs) c) w =
    (Inr (length ys), Vec (ys @ x # zs) (if c = 0 then 1 else c * 2),
     w\<lparr>trace := trace w @ EvAllocate (if c = 0 then 1 else c * 2) # EvConstruct #
         replicate c (if is_nothrow_move_constructible T \<or> \<not> is_copy_constructible T
                      then EvMoveConstruct else EvCopyConstruct) @
         replicate c EvDestroy @ (if c = 0 then [] else [EvDeallocate 0])\<rparr>)"
proof (cases "c = 0")
  case True
  with assms have "ys = []" "zs = []" by simp_all
  with True assms show ?thesis
    by (simp add: Emplace_def to_int_def RawMemory_new_ok Vec_def get_cells_def put_cells_def
        construct_at_def move_or_copy_n_def RawMemory_Swap_def RawMemory_destroy_def
        Deallocate_def record_event_def)
next
  case False
  let ?mv = "is_nothrow_move_constructible T \<or> \<not> is_copy_constructible T"
  let ?tev = "if ?mv then EvMoveConstruct else EvCopyConstruct"
  let ?p = "length ys"
  let ?q = "length zs"
  let ?n = "c * 2"
  let ?w1 = "record_event (EvAllocate ?n) w"
  let ?w2 = "record_event EvConstruct ?w1"
  let ?w3 = "?w2\<lparr>trace := trace ?w2 @ replicate ?p ?tev\<rparr>"
  let ?w4 = "?w3\<lparr>trace := trace ?w3 @ replicate ?q ?tev\<rparr>"
  define left1 where "left1 = (if ?mv then replicate ?p MovedFrom else map Obj ys)"
  define left2 where "left2 = (if ?mv then replicate ?q MovedFrom else map Obj zs)"
  define rest where "rest = replicate (?n - Suc c) (Raw :: 'a slot)"
  define hole where "hole = replicate ?q (Raw :: 'a slot)"
  have pos: "0 < c" using False by simp
  have sz: "size_v (Vec (ys @ zs) c) = c" "c - ?p = ?q" "?p \<le> c"
    using assms(3) by simp_all
  have f: "fault ?w1 = None" "fault ?w2 = None" "fault ?w3 = None" "fault ?w4 = None"
    using assms(1) by simp_all
  have lens: "length left1 = ?p" "length left2 = ?q" "length hole = ?q"
    by (simp_all add: left1_def left2_def hole_def)
  have cons: "list_all constructed (left1 @ left2)" "length (left1 @ left2) = c"
    using assms(3) by (auto simp: left1_def left2_def list_all_iff)
  have "?n = ?p + Suc (?q + (?n - Suc c))"
    using pos assms(3) by arith
  then have "replicate ?n Raw = replicate ?p Raw @ Raw # replicate ?q Raw @ replicate (?n - Suc c) (Raw :: 'a slot)"
    by (metis replicate_Suc replicate_add)
  then have new: "replicate ?n Raw = replicate ?p Raw @ Raw # hole @ rest"
    by (simp add: rest_def hole_def)
  have construct: "construct_at (replicate ?n Raw) ?p x ?w1 =
      (None, replicate ?p Raw @ Obj x # hole @ rest, ?w2)"
    using construct_at_cells [of ?w1 "replicate ?p Raw" Raw "hole @ rest" x] f(1)
    unfolding new by simp
  have transfer1: "move_or_copy_n T (map Obj ys @ map Obj zs) 0 ?p
      (replicate ?p Raw @ Obj x # hole @ rest) 0 ?w2 =
      (None, left1 @ map Obj zs, map Obj ys @ Obj x # hole @ rest, ?w3)"
    using move_or_copy_n_cells [OF f(2), of "replicate ?p Raw" ys T "[]" "map Obj zs" "[]" "Obj x # hole @ rest"]
    by (simp add: left1_def)
  have transfer2: "move_or_copy_n T (left1 @ map Obj zs) ?p ?q
      (map Obj ys @ Obj x # hole @ rest) (Suc ?p) ?w3 =
      (None, left1 @ left2, map Obj ys @ Obj x # map Obj zs @ rest, ?w4)"
    using move_or_copy_n_cells [OF f(3), of hole zs T left1 "[]" "map Obj ys @ [Obj x]" rest] lens
    by (simp add: left2_def)
  from destroy_n_cells [OF cons(1), of "[]" "[]"] cons(2)
  have destroy: "\<And>w. destroy_n (left1 @ left2) 0 c w =
      (None, replicate c Raw, w\<lparr>trace := trace w @ replicate c EvDestroy\<rparr>)"
    by simp
  have cells: "get_cells (data (Vec (ys @ zs) c)) = map Obj ys @ map Obj zs"
    using assms(3) by (simp add: get_cells_Vec)
  have "Emplace T ?p x (Vec (ys @ zs) c) w =
      (Inr ?p,
       \<lparr>data = \<lparr>buffer = Block (map Obj ys @ Obj x # map Obj zs @ rest), capacity = ?n\<rparr>,
        size_v = Suc c\<rparr>,
       record_event (EvDeallocate 0) (?w4\<lparr>trace := trace ?w4 @ replicate c EvDestroy\<rparr>))"
    using assms(1,2) pos unfolding Emplace_def
    apply (simp add: sz to_int_small RawMemory_new_ok cells construct transfer1 transfer2 destroy Let_def
        del: size_Vec)
    apply (simp add: Vec_def put_cells_def RawMemory_Swap_def RawMemory_destroy_def Deallocate_def
        assms(3) [symmetric])
    done
  moreover have "replicate c ?tev = replicate ?p ?tev @ replicate ?q ?tev"
    using assms(3) by (simp add: replicate_add)
  ultimately show ?thesis
    using False assms(3) by (simp add: Vec_def rest_def record_event_def)
qed

lemma Emplace_Vec:
  assumes "length xs \<le> c" "pos \<le> length xs" "pos < 2 ^ 31" "fault w = None"
  shows "\<exists>w'. Emplace T pos x (Vec xs c) w =
      (Inr pos, Vec (take pos xs @ x # drop pos xs)
                  (if length xs < c then c else if c = 0 then 1 else c * 2), w') \<and>
      fault w' = None"
proof (cases "length xs < c")
  case room: True
  show ?thesis
  proof (cases "pos = length xs")
    case True
    with room assms Emplace_at_end_Vec [of xs c w T x] show ?thesis
      by simp
  next
    case False
    with assms(2) have "drop pos xs \<noteq> []" by simp
    then obtain zs z where tail: "drop pos xs = zs @ [z]"
      by (metis rev_exhaust)
    define ys where "ys = take pos xs"
    have xs: "xs = ys @ zs @ [z]" and ys: "length ys = pos"
      using tail assms(2) by (simp_all add: ys_def flip: tail)
    from room assms(3,4) Emplace_in_place_Vec [of ys zs z c w T x] show ?thesis
      unfolding xs using ys by auto
  qed
next
  case False
  define ys where "ys = take pos xs"
  define zs where "zs = drop pos xs"
  have xs: "xs = ys @ zs" and ys: "length ys = pos"
    using assms(2) by (simp_all add: ys_def zs_def)
  from False assms(1) have c: "c = length ys + length zs"
    by (simp add: xs)
  from assms(3,4) Emplace_grow_Vec [of w ys c zs T x] c show ?thesis
    unfolding xs using ys by auto
qed

lemma Erase_nth_Vec:
  assumes "length xs \<le> c" "pos < length xs" "pos < 2 ^ 31" "fault w = None"
  shows "\<exists>w'. Erase pos (Vec xs c) w = (Inr pos, Vec (take pos xs @ drop (Suc pos) xs) c, w') \<and>
      fault w' = None"
proof -
  define ys where "ys = take pos xs"
  define zs where "zs = drop (Suc pos) xs"
  have xs: "xs = ys @ xs ! pos # zs" and ys: "length ys = pos"
    using assms(2) by (simp_all add: ys_def zs_def id_take_nth_drop [symmetric])
  have "length (ys @ xs ! pos # zs) \<le> c"
    using assms(1) xs by simp
  from Erase_Vec [OF this assms(4), of] assms(3) ys
  have "Erase pos (Vec (ys @ xs ! pos # zs) c) w =
      (Inr pos, Vec (ys @ zs) c, w\<lparr>trace := trace w @ replicate (length zs) EvMoveAssign @ [EvDestroy]\<rparr>)"
    by simp
  then show ?thesis
    using assms(4) xs ys by (auto simp: ys_def zs_def)
qed

text \<open>
  For positions below \<open>2^31\<close> the splice and its inverse are as expected: \<^verbatim>\<open>Emplace\<close> at
  \<open>pos\<close> puts the new value at index \<open>pos\<close>, and \<^verbatim>\<open>Erase\<close> at \<open>pos\<close> afterwards restores
  the original elements.
\<close>

lemma Emplace_then_Erase:
  assumes "well_formed v" "pos \<le> Size v" "pos < 2 ^ 31" "fault w = None"
  shows "\<exists>v1 w1 v2 w2.
      Emplace T pos x v w = (Inr pos, v1, w1) \<and> well_formed v1 \<and>
      elems v1 = take pos (elems v) @ x # drop pos (elems v) \<and> Size v1 = Suc (Size v) \<and>
      Erase pos v1 w1 = (Inr pos, v2, w2) \<and> well_formed v2 \<and> elems v2 = elems v"
proof -
  define xs where "xs = elems v"
  define c where "c = capacity (data v)"
  have v: "v = Vec xs c" and len: "length xs \<le> c"
    using assms(1) Vec_conv [of v] length_elems [of v]
    by (simp_all add: xs_def c_def well_formed_def)
  have pos: "pos \<le> length xs"
    using assms(2) by (simp add: v Size_def)
  let ?c = "if length xs < c then c else if c = 0 then 1 else c * 2"
  let ?xs = "take pos xs @ x # drop pos xs"
  from Emplace_Vec [OF len pos assms(3,4), of T x] obtain w1 where
    ins: "Emplace T pos x (Vec xs c) w = (Inr pos, Vec ?xs ?c, w1)" and w1: "fault w1 = None"
    by blast
  have len1: "length ?xs \<le> ?c" "pos < length ?xs"
    using len pos by auto
  from Erase_nth_Vec [OF len1 assms(3) w1] obtain w2 where
    "Erase pos (Vec ?xs ?c) w1 = (Inr pos, Vec (take pos ?xs @ drop (Suc pos) ?xs) ?c, w2)"
    by blast
  moreover have "take pos ?xs @ drop (Suc pos) ?xs = xs"
    using pos by (simp add: min_absorb2)
  ultimately have del: "Erase pos (Vec ?xs ?c) w1 = (Inr pos, Vec xs ?c, w2)"
    by simp
  have "length xs \<le> ?c" using len by auto
  with ins del len len1 pos show ?thesis
    unfolding v by (simp add: well_formed_Vec Size_def min_absorb2 del: One_nat_def)
qed

lemma Vector_n_Vec:
  assumes "fault w = None"
  shows "Vector_n T n w =
    (Inr (Vec (replicate n (default_value T)) n),
     w\<lparr>trace := trace w @ (if n = 0 then [] else [EvAllocate n]) @
         replicate n EvDefaultConstruct\<rparr>)"
proof (cases "n = 0")
  case True
  then show ?thesis
    by (simp add: Vector_n_def RawMemory_new_def Allocate_def Vec_def put_cells_def get_cells_def)
next
  case False
  let ?w1 = "record_event (EvAllocate n) w"
  have "fault ?w1 = None" using assms by simp
  from uninitialized_value_construct_n_cells [OF this, of "replicate n Raw" n T "[]" "[]"]
  have "uninitialized_value_construct_n T (replicate n Raw) 0 n ?w1 =
      (None, replicate n (Obj (default_value T)),
       ?w1\<lparr>trace := trace ?w1 @ replicate n EvDefaultConstruct\<rparr>)"
    by simp
  with False assms show ?thesis
    unfolding Vector_n_def
    by (simp add: RawMemory_new_ok) (simp add: Vec_def record_event_def)
qed

text \<open>
  C7. The claim: for every vector and every position \<open>p\<close> in \<open>[0, size()]\<close>,
  \<^verbatim>\<open>Insert\<close>/\<^verbatim>\<open>Emplace\<close> at \<open>p\<close> splices the value in at index \<open>p\<close> and a following
  \<^verbatim>\<open>Erase\<close> at \<open>p\<close> restores the elements. Under the narrowing to \<^verbatim>\<open>int\<close> this holds for
  positions below \<open>2^31\<close> (\<open>Emplace_then_Erase\<close>). In a vector of \<open>2^31 + 1\<close> elements,
  as \<^verbatim>\<open>Vector<T> v(2147483649)\<close> makes it, the valid position \<open>2^31\<close> becomes \<open>-2^31\<close>:
  \<^verbatim>\<open>Emplace\<close> allocates the new block and then forms \<^verbatim>\<open>new_data.GetAddress() + position\<close>
  in front of it, and \<^verbatim>\<open>Erase\<close> forms \<^verbatim>\<open>begin() + position\<close> in front of the buffer. Both
  are undefined behaviour, and nothing is spliced in or cut out.
\<close>

theorem Emplace_position_truncated:
  "fst (Vector_n int_type (2 ^ 31 + 1) no_faults) = Inr (Vec (replicate (2 ^ 31 + 1) 0) (2 ^ 31 + 1)) \<and>
   to_int (2 ^ 31) = - (2 ^ 31) \<and>
   Emplace int_type (2 ^ 31) 7 (Vec (replicate (2 ^ 31 + 1) 0) (2 ^ 31 + 1)) no_faults =
     (Inl Undefined, Vec (replicate (2 ^ 31 + 1) 0) (2 ^ 31 + 1),
      no_faults\<lparr>trace := [EvAllocate ((2 ^ 31 + 1) * 2)]\<rparr>) \<and>
   Erase (2 ^ 31) (Vec (replicate (2 ^ 31 + 1) (0 :: int)) (2 ^ 31 + 1)) no_faults =
     (Inl Undefined, Vec (replicate (2 ^ 31 + 1) 0) (2 ^ 31 + 1), no_faults)"
proof -
  have "fault no_faults = None"
    by (simp add: no_faults_def)
  from Vector_n_Vec [OF this, of int_type "2 ^ 31 + 1"]
  have "fst (Vector_n int_type (2 ^ 31 + 1) no_faults) =
      Inr (Vec (replicate (2 ^ 31 + 1) 0) (2 ^ 31 + 1))"
    by (simp add: int_type_def)
  then show ?thesis
    by (simp add: to_int_def Emplace_def Erase_def RawMemory_new_ok no_faults_def record_event_def)
qed

section \<open>Exceptions in the in-place path of Emplace\<close>

text \<open>
  When the capacity suffices and the vector is not empty, no call of \<^verbatim>\<open>Emplace\<close> ends with
  an exception: the handler passes \<^verbatim>\<open>end()\<close>, a pointer into the middle of the block, to
  \<^verbatim>\<open>operator delete\<close>.
\<close>

lemma Emplace_in_place_never_throws:
  assumes "size_v v < capacity (data v)" "0 < size_v v"
  shows "fst (Emplace T pos x v w) \<noteq> Inl Thrown"
  using assms
  by (auto simp: Emplace_def Let_def operator_delete_at_def split: prod.splits option.splits)

text \<open>
  C9. The claim: if an element operation throws in the in-place path of \<^verbatim>\<open>Emplace\<close> at a
  position before \<^verbatim>\<open>end()\<close>, the exception propagates and the size is not incremented.
  On \<open>{1, 2}\<close> with capacity 4 and position 0 the call ends in undefined behaviour
  instead, whether the construction of \<^verbatim>\<open>new_s\<close> throws (first line), a move assignment
  of the shift throws (second line), or the move construction of the last element throws
  (third line).
\<close>

theorem Emplace_in_place_throw_is_undefined:
  "Emplace int_type 0 9 (Vec [1, 2] 4) \<lparr>fault = Some 0, trace = []\<rparr> =
     (Inl Undefined, Vec [1, 2] 4, \<lparr>fault = None, trace = []\<rparr>) \<and>
   fst (Emplace int_type 0 9 (Vec [1, 2] 4) \<lparr>fault = Some 1, trace = []\<rparr>) = Inl Undefined \<and>
   fst (Emplace throwing_type 0 9 (Vec [1, 2] 4) \<lparr>fault = Some 1, trace = []\<rparr>) = Inl Undefined"
  by (simp add: Emplace_def Emplace_in_place_def to_int_def fallible_def Vec_def get_cells_def
      set_cells_def put_cells_def operator_delete_at_def move_construct_within_def move_step_def
      int_type_def throwing_type_def record_event_def move_assign_at_def numeral_2_eq_2)

section \<open>Exceptions while appending\<close>

lemma destroy_n_not_Thrown: "destroy_n b i n w = (Some e, b', w') \<Longrightarrow> e = Undefined"
  by (induction n arbitrary: b i w)
    (auto simp: destroy_at_def split: prod.splits option.splits if_splits)

lemma uninitialized_move_n_nothrow:
  "is_nothrow_move_constructible T \<Longrightarrow>
   fst (uninitialized_move_n T src s n dst d w) \<noteq> Some Thrown"
proof (induction n arbitrary: src s dst d w)
  case 0
  then show ?case by simp
next
  case (Suc n)
  from Suc.IH [OF Suc.prems, of "src[s := MovedFrom]" "Suc s" "dst[d := src ! s]" "Suc d"
      "record_event EvMoveConstruct w"] Suc.prems
  show ?case
    by (auto simp: move_construct_at_def move_step_def split: prod.splits)
qed

lemma move_or_copy_n_Thrown:
  assumes "is_nothrow_move_constructible T \<or> is_copy_constructible T"
    and "move_or_copy_n T src s n dst d w = (Some Thrown, old, new, w')"
  shows "old = src"
proof (cases "is_nothrow_move_constructible T")
  case True
  with assms(2) uninitialized_move_n_nothrow [OF True, of src s n dst d w] show ?thesis
    by (simp add: move_or_copy_n_def)
next
  case False
  with assms show ?thesis
    by (auto simp: move_or_copy_n_def split: prod.splits)
qed

lemma Deallocate_not_Thrown: "Deallocate p w = (Some e, w') \<Longrightarrow> e = Undefined"
  by (auto simp: Deallocate_def split: ptr.splits)

text \<open>
  C4. On the growth path (\<open>capacity() \<le> size()\<close>) the new element is constructed in the
  new block before any element is transferred: when its construction throws (the second
  operation that may throw, after the allocation), the only events are the allocation and
  the release of the new block, and the vector is what it was. When the elements are
  transferred by copying, or by a move constructor that cannot throw, every exception that
  leaves \<^verbatim>\<open>PushBack\<close> or \<^verbatim>\<open>EmplaceBack\<close> (from the allocation, from the construction of the
  new element or from a copy) leaves the vector exactly what it was: buffer, capacity,
  size and elements.
\<close>

theorem PushBack_strong_guarantee:
  assumes "Capacity v \<le> Size v"
  shows "(fault w = Some 1 \<longrightarrow>
            PushBack T x v w =
              (Some Thrown, v,
               w\<lparr>fault := None,
                 trace := trace w @ [EvAllocate (if Size v = 0 then 1 else Size v * 2),
                                     EvDeallocate 0]\<rparr>) \<and>
            EmplaceBack T x v w =
              (Inl Thrown, v,
               w\<lparr>fault := None,
                 trace := trace w @ [EvAllocate (if Size v = 0 then 1 else Size v * 2),
                                     EvDeallocate 0]\<rparr>)) \<and>
         (is_nothrow_move_constructible T \<or> is_copy_constructible T \<longrightarrow>
            (case PushBack T x v w of (e, v', w') \<Rightarrow> e = Some Thrown \<longrightarrow> v' = v) \<and>
            (case EmplaceBack T x v w of (r, v', w') \<Rightarrow> r = Inl Thrown \<longrightarrow> v' = v))"
proof (intro conjI impI)
  assume "fault w = Some 1"
  with assms show "PushBack T x v w =
      (Some Thrown, v,
       w\<lparr>fault := None,
         trace := trace w @ [EvAllocate (if Size v = 0 then 1 else Size v * 2), EvDeallocate 0]\<rparr>)"
    by (simp add: PushBack_def Capacity_def Size_def RawMemory_new_def Allocate_def fallible_def
        construct_at_def get_cells_def put_cells_def RawMemory_destroy_def Deallocate_def
        record_event_def)
next
  assume "fault w = Some 1"
  with assms show "EmplaceBack T x v w =
      (Inl Thrown, v,
       w\<lparr>fault := None,
         trace := trace w @ [EvAllocate (if Size v = 0 then 1 else Size v * 2), EvDeallocate 0]\<rparr>)"
    by (simp add: EmplaceBack_def Capacity_def Size_def RawMemory_new_def Allocate_def fallible_def
        construct_at_def get_cells_def put_cells_def RawMemory_destroy_def Deallocate_def
        record_event_def)
next
  assume T: "is_nothrow_move_constructible T \<or> is_copy_constructible T"
  have transfer: "old = src"
    if "move_or_copy_n T src s n dst d w0 = (Some Thrown, old, new, w1)"
    for src s n dst d w0 old new w1
    using T that by (rule move_or_copy_n_Thrown)
  have "v' = v" if "PushBack T x v w = (Some Thrown, v', w')" for v' w'
    using that assms
    by (auto simp: PushBack_def Capacity_def Size_def RawMemory_destroy_def
        split: prod.splits sum.splits option.splits
        dest: transfer destroy_n_not_Thrown Deallocate_not_Thrown)
  then show "case PushBack T x v w of (e, v', w') \<Rightarrow> e = Some Thrown \<longrightarrow> v' = v"
    by (auto split: prod.splits)
  have "v' = v" if "EmplaceBack T x v w = (Inl Thrown, v', w')" for v' w'
    using that assms
    by (auto simp: EmplaceBack_def Capacity_def Size_def RawMemory_destroy_def
        split: prod.splits sum.splits option.splits
        dest: transfer destroy_n_not_Thrown Deallocate_not_Thrown)
  then show "case EmplaceBack T x v w of (r, v', w') \<Rightarrow> r = Inl Thrown \<longrightarrow> v' = v"
    by (auto split: prod.splits)
qed

theorem PushBack_strong_guarantee_witness:
  "Capacity (Vec [1, 2 :: int] 2) \<le> Size (Vec [1, 2 :: int] 2) \<and>
   fault \<lparr>fault = Some 1, trace = []\<rparr> = Some 1 \<and>
   PushBack throwing_type 3 (Vec [1, 2] 2) \<lparr>fault = Some 1, trace = []\<rparr> =
     (Some Thrown, Vec [1, 2] 2, \<lparr>fault = None, trace = [EvAllocate 4, EvDeallocate 0]\<rparr>) \<and>
   EmplaceBack throwing_type 3 (Vec [1, 2] 2) \<lparr>fault = Some 1, trace = []\<rparr> =
     (Inl Thrown, Vec [1, 2] 2, \<lparr>fault = None, trace = [EvAllocate 4, EvDeallocate 0]\<rparr>) \<and>
   (is_nothrow_move_constructible throwing_type \<or> is_copy_constructible throwing_type) \<and>
   PushBack throwing_type 3 (Vec [1, 2] 2) \<lparr>fault = Some 3, trace = []\<rparr> =
     (Some Thrown, Vec [1, 2] 2,
      \<lparr>fault = None, trace = [EvAllocate 4, EvConstruct, EvCopyConstruct, EvDestroy, EvDeallocate 1]\<rparr>) \<and>
   fst (EmplaceBack throwing_type 3 (Vec [1, 2] 2) \<lparr>fault = Some 3, trace = []\<rparr>) = Inl Thrown \<and>
   fst (snd (EmplaceBack throwing_type 3 (Vec [1, 2] 2) \<lparr>fault = Some 3, trace = []\<rparr>)) = Vec [1, 2] 2"
proof -
  let ?v = "Vec [1, 2 :: int] 2"
  let ?w = "\<lparr>fault = Some 3, trace = []\<rparr>"
  let ?w1 = "\<lparr>fault = Some 1, trace = []\<rparr>"
  have h1: "Capacity ?v \<le> Size ?v"
    by (simp add: Capacity_def Size_def)
  have h2: "is_nothrow_move_constructible throwing_type \<or> is_copy_constructible throwing_type"
    by (simp add: throwing_type_def)
  have h3: "fault ?w1 = Some 1"
    by simp
  obtain v' w' where run: "PushBack throwing_type 3 ?v ?w = (Some Thrown, v', w')"
    and w': "w' = \<lparr>fault = None, trace = [EvAllocate 4, EvConstruct, EvCopyConstruct, EvDestroy, EvDeallocate 1]\<rparr>"
    by (simp add: PushBack_def Vec_def RawMemory_new_def Allocate_def fallible_def construct_at_def
        get_cells_def put_cells_def set_cells_def move_or_copy_n_def throwing_type_def
        copy_construct_at_def destroy_at_def RawMemory_destroy_def Deallocate_def record_event_def
        numeral_2_eq_2)
  obtain u' y' where run2: "EmplaceBack throwing_type 3 ?v ?w = (Inl Thrown, u', y')"
    by (simp add: EmplaceBack_def Vec_def RawMemory_new_def Allocate_def fallible_def construct_at_def
        get_cells_def put_cells_def set_cells_def move_or_copy_n_def throwing_type_def
        copy_construct_at_def destroy_at_def RawMemory_destroy_def Deallocate_def record_event_def
        numeral_2_eq_2)
  from PushBack_strong_guarantee [OF h1, where T = throwing_type and x = 3 and w = ?w] h2 run run2
  have v': "v' = ?v" "u' = ?v"
    by simp_all
  from PushBack_strong_guarantee [OF h1, where T = throwing_type and x = 3 and w = ?w1] h3
  have first: "PushBack throwing_type 3 ?v ?w1 =
      (Some Thrown, ?v, \<lparr>fault = None, trace = [EvAllocate 4, EvDeallocate 0]\<rparr>)"
    "EmplaceBack throwing_type 3 ?v ?w1 =
      (Inl Thrown, ?v, \<lparr>fault = None, trace = [EvAllocate 4, EvDeallocate 0]\<rparr>)"
    by (simp_all add: Size_def)
  from h1 h2 h3 run run2 w' v' first show ?thesis
    by simp
qed

section \<open>Sequences of PushBack and PopBack\<close>

lemma PushBack_Vec:
  assumes "length xs \<le> c" "fault w = None"
  shows "\<exists>c' w'. PushBack T x (Vec xs c) w = (None, Vec (xs @ [x]) c', w') \<and>
      length xs < c' \<and> fault w' = None"
proof (cases "length xs < c")
  case True
  with assms PushBack_in_place_Vec [of xs c w T x] show ?thesis
    by (intro exI [of _ c]) simp
next
  case False
  with assms have "length xs = c" by simp
  with assms PushBack_grow_Vec [of xs c w T x] show ?thesis
    by (intro exI [of _ "if c = 0 then 1 else c * 2"]) auto
qed

lemma run_pushes_and_pops:
  assumes "length xs \<le> c" "fault w = None" "pushes_and_pops cs (length xs)"
  shows "\<exists>c' w'. run T cs (Vec xs c) w = (None, Vec (expected cs xs) c', w') \<and>
      length (expected cs xs) \<le> c' \<and>
      length (expected cs xs) + pops cs = length xs + pushes cs"
  using assms
proof (induction cs arbitrary: xs c w)
  case Nil
  then show ?case
    by (intro exI [of _ c] exI [of _ w]) simp
next
  case (Cons call cs)
  show ?case
  proof (cases call)
    case (Call_PushBack x)
    from PushBack_Vec [OF Cons.prems(1,2), of T x] obtain c1 w1 where
      step: "PushBack T x (Vec xs c) w = (None, Vec (xs @ [x]) c1, w1)"
      and c1: "length (xs @ [x]) \<le> c1" and w1: "fault w1 = None"
      by auto
    from Cons.prems(3) Call_PushBack have "pushes_and_pops cs (length (xs @ [x]))"
      by simp
    from Cons.IH [OF c1 w1 this] step Call_PushBack show ?thesis
      by auto
  next
    case Call_PopBack
    with Cons.prems(3) have ne: "xs \<noteq> []" and rest: "pushes_and_pops cs (length (butlast xs))"
      by auto
    let ?w1 = "w\<lparr>trace := trace w @ [EvDestroy]\<rparr>"
    have step: "PopBack (Vec xs c) w = (None, Vec (butlast xs) c, ?w1)"
      using Cons.prems(1) ne by (rule PopBack_Vec)
    have c1: "length (butlast xs) \<le> c" and w1: "fault ?w1 = None"
      using Cons.prems(1,2) by simp_all
    from Cons.IH [OF c1 w1 rest] step Call_PopBack ne show ?thesis
      by (cases xs rule: rev_cases) auto
  next
    case (Call_Insert pos x)
    with Cons.prems(3) show ?thesis by simp
  next
    case (Call_Erase pos)
    with Cons.prems(3) show ?thesis by simp
  qed
qed

lemma scenario:
  fixes T :: "int elem_type"
  assumes "fault w = None"
  shows "\<exists>w3 w4 w5 w6.
    run T [Call_PushBack 1, Call_PushBack 2, Call_PushBack 3] Vector_default w =
      (None, Vec [1, 2, 3] 4, w3) \<and>
    run T [Call_PushBack 1, Call_PushBack 2, Call_PushBack 3, Call_Insert 1 9] Vector_default w =
      (None, Vec [1, 9, 2, 3] 4, w4) \<and>
    run T [Call_PushBack 1, Call_PushBack 2, Call_PushBack 3, Call_Insert 1 9, Call_Erase 2]
      Vector_default w = (None, Vec [1, 9, 3] 4, w5) \<and>
    run T [Call_PushBack 1, Call_PushBack 2, Call_PushBack 3, Call_Insert 1 9, Call_Erase 2,
           Call_PopBack] Vector_default w = (None, Vec [1, 9] 4, w6)"
proof -
  have start: "Vector_default = (Vec [] 0 :: int Vector)"
    by (simp add: Vector_default_def RawMemory_default_def Vec_def)
  obtain w1 where s1: "PushBack T 1 (Vec [] 0) w = (None, Vec [1] 1, w1)" and f1: "fault w1 = None"
    using PushBack_grow_Vec [of "[]" 0 w T 1] assms by simp
  obtain w2 where s2: "PushBack T 2 (Vec [1] 1) w1 = (None, Vec [1, 2] 2, w2)" and f2: "fault w2 = None"
    using PushBack_grow_Vec [of "[1]" 1 w1 T 2] f1 by simp
  obtain w3 where s3: "PushBack T 3 (Vec [1, 2] 2) w2 = (None, Vec [1, 2, 3] 4, w3)" and f3: "fault w3 = None"
    using PushBack_grow_Vec [of "[1, 2]" 2 w2 T 3] f2 by simp
  obtain w4 where s4: "Emplace T 1 9 (Vec [1, 2, 3] 4) w3 = (Inr 1, Vec [1, 9, 2, 3] 4, w4)" and f4: "fault w4 = None"
    using Emplace_in_place_Vec [of "[1]" "[2]" 3 4 w3 T 9] f3 by simp
  have "Erase (length [1, 9 :: int]) (Vec ([1, 9 :: int] @ 2 # [3]) 4) w4 =
      (Inr (length [1, 9 :: int]), Vec ([1, 9 :: int] @ [3]) 4,
       w4\<lparr>trace := trace w4 @ replicate (length [3 :: int]) EvMoveAssign @ [EvDestroy]\<rparr>)"
    by (rule Erase_Vec) (simp_all add: f4)
  then obtain w5 where s5: "Erase 2 (Vec [1, 9, 2, 3 :: int] 4) w4 = (Inr 2, Vec [1, 9, 3] 4, w5)"
    by (simp add: numeral_2_eq_2)
  obtain w6 where s6: "PopBack (Vec [1, 9, 3 :: int] 4) w5 = (None, Vec [1, 9] 4, w6)"
    using PopBack_Vec [of "[1, 9, 3 :: int]" 4 w5] by simp
  from s1 s2 s3 s4 s5 s6 show ?thesis
    by (simp add: start Insert_def)
qed

text \<open>
  C8. For a vector that satisfies the class invariant, when nothing throws, every
  sequence of \<^verbatim>\<open>PushBack\<close> and \<^verbatim>\<open>PopBack\<close> calls in which \<^verbatim>\<open>PopBack\<close> never meets an empty
  vector returns; the final size is the initial size plus the pushes minus the pops, and
  the elements are the initial ones with each pushed value appended and each pop removing
  the last one. The concrete scenario: from the empty vector, pushing 1, 2, 3 gives
  \<open>[1,2,3]\<close>, inserting 9 at index 1 gives \<open>[1,9,2,3]\<close>, erasing index 2 gives \<open>[1,9,3]\<close>,
  and \<^verbatim>\<open>PopBack\<close> gives \<open>[1,9]\<close>.
\<close>

theorem push_pop_sequences:
  assumes "well_formed v" and "fault w = None" and "pushes_and_pops cs (Size v)"
  shows "(case run T cs v w of
            (e, v', w') \<Rightarrow>
              e = None \<and> well_formed v' \<and> elems v' = expected cs (elems v) \<and>
              Size v' + pops cs = Size v + pushes cs) \<and>
         (\<exists>w3 w4 w5 w6.
            run int_type [Call_PushBack 1, Call_PushBack 2, Call_PushBack 3] Vector_default no_faults =
              (None, Vec [1, 2, 3] 4, w3) \<and>
            run int_type [Call_PushBack 1, Call_PushBack 2, Call_PushBack 3, Call_Insert 1 9]
              Vector_default no_faults = (None, Vec [1, 9, 2, 3] 4, w4) \<and>
            run int_type [Call_PushBack 1, Call_PushBack 2, Call_PushBack 3, Call_Insert 1 9,
                          Call_Erase 2] Vector_default no_faults = (None, Vec [1, 9, 3] 4, w5) \<and>
            run int_type [Call_PushBack 1, Call_PushBack 2, Call_PushBack 3, Call_Insert 1 9,
                          Call_Erase 2, Call_PopBack] Vector_default no_faults =
              (None, Vec [1, 9] 4, w6))"
proof
  define xs where "xs = elems v"
  define c where "c = capacity (data v)"
  have v: "v = Vec xs c" and len: "length xs \<le> c"
    using assms(1) Vec_conv [of v] length_elems [of v]
    by (simp_all add: xs_def c_def well_formed_def)
  from assms(3) have "pushes_and_pops cs (length xs)"
    by (simp add: v Size_def)
  from run_pushes_and_pops [OF len assms(2) this, of T] obtain c' w' where
    "run T cs (Vec xs c) w = (None, Vec (expected cs xs) c', w')"
    "length (expected cs xs) \<le> c'"
    "length (expected cs xs) + pops cs = length xs + pushes cs"
    by blast
  with len show "case run T cs v w of
      (e, v', w') \<Rightarrow>
        e = None \<and> well_formed v' \<and> elems v' = expected cs (elems v) \<and>
        Size v' + pops cs = Size v + pushes cs"
    by (simp add: v Size_def well_formed_Vec)
next
  have "fault no_faults = None"
    by (simp add: no_faults_def)
  then show "\<exists>w3 w4 w5 w6.
      run int_type [Call_PushBack 1, Call_PushBack 2, Call_PushBack 3] Vector_default no_faults =
        (None, Vec [1, 2, 3] 4, w3) \<and>
      run int_type [Call_PushBack 1, Call_PushBack 2, Call_PushBack 3, Call_Insert 1 9]
        Vector_default no_faults = (None, Vec [1, 9, 2, 3] 4, w4) \<and>
      run int_type [Call_PushBack 1, Call_PushBack 2, Call_PushBack 3, Call_Insert 1 9,
                    Call_Erase 2] Vector_default no_faults = (None, Vec [1, 9, 3] 4, w5) \<and>
      run int_type [Call_PushBack 1, Call_PushBack 2, Call_PushBack 3, Call_Insert 1 9,
                    Call_Erase 2, Call_PopBack] Vector_default no_faults =
        (None, Vec [1, 9] 4, w6)"
    by (rule scenario)
qed

theorem push_pop_sequences_witness:
  "well_formed (Vec [5 :: int] 1) \<and> fault no_faults = None \<and>
   pushes_and_pops [Call_PushBack (6 :: int), Call_PopBack, Call_PopBack, Call_PushBack 7]
     (Size (Vec [5 :: int] 1)) \<and>
   (case run int_type [Call_PushBack 6, Call_PopBack, Call_PopBack, Call_PushBack 7]
           (Vec [5 :: int] 1) no_faults of
      (e, v', w') \<Rightarrow> e = None \<and> well_formed v' \<and> elems v' = [7] \<and> Size v' = 1)"
proof -
  let ?cs = "[Call_PushBack (6 :: int), Call_PopBack, Call_PopBack, Call_PushBack 7]"
  have h1: "well_formed (Vec [5 :: int] 1)"
    by (simp add: well_formed_Vec)
  have h2: "fault no_faults = None"
    by (simp add: no_faults_def)
  have h3: "pushes_and_pops ?cs (Size (Vec [5 :: int] 1))"
    by (simp add: Size_def)
  obtain e v' w' where run: "run int_type ?cs (Vec [5 :: int] 1) no_faults = (e, v', w')"
    by (rule prod_cases3)
  from push_pop_sequences [OF h1 h2 h3, of int_type]
  have "e = None \<and> well_formed v' \<and> elems v' = expected ?cs (elems (Vec [5 :: int] 1)) \<and>
      Size v' + pops ?cs = Size (Vec [5 :: int] 1) + pushes ?cs"
    unfolding run by simp
  then have "e = None \<and> well_formed v' \<and> elems v' = [7] \<and> Size v' = 1"
    by (simp add: Size_def)
  with h1 h2 h3 show ?thesis
    unfolding run prod.case by blast
qed

end
